theory Spec2Isabelle
  imports Main "HOL-Library.Sublist"
begin

section \<open>Text of CSV chunks\<close>

text \<open>
  Chunk files, manifests and file names are byte strings. A JavaScript string that comes
  out of a \<open>TextDecoder\<close> is kept as its UTF-8 bytes: a line feed is the byte \<open>0x0A\<close> in
  both forms and never part of a longer sequence, so \<open>split('\n')\<close> cuts at the same places,
  and \<open>TextEncoder.encode\<close> gives these bytes back.
\<close>

abbreviation nl :: char where
  "nl \<equiv> CHR 0x0A"

text \<open>JavaScript's \<open>buffer.split('\n')\<close>: never empty (the first case of the \<open>case\<close>
  below does not arise), the last element is the text after the last line feed.\<close>

fun split_nl :: "string \<Rightarrow> string list" where
  "split_nl [] = [[]]"
| "split_nl (c # cs) =
     (if c = nl then [] # split_nl cs
      else (case split_nl cs of [] \<Rightarrow> [[c]] | l # ls \<Rightarrow> (c # l) # ls))"

text \<open>The lines of a text: a last line without a line feed counts, an empty remainder
  after the last line feed does not.\<close>

definition lines_of :: "string \<Rightarrow> string list" where
  "lines_of t = (if last (split_nl t) = [] then butlast (split_nl t) else split_nl t)"

section \<open>The browser downloader (docs/download.js)\<close>

text \<open>What a rejected \<open>fetch\<close> or \<open>read\<close> carries: a network failure (a \<open>TypeError\<close>), or
  the \<open>AbortError\<close> of an aborted signal.\<close>

datatype transfer_error = NetworkFailure | AbortError

text \<open>The errors \<open>downloadMonth\<close> can reject with: its own three (the second is the
  \<open>TypeError\<close> of \<open>this.manifest.months\<close> on a manifest that was never loaded), the
  \<open>TypeError\<close> of \<open>chunks.length\<close> on a month value without \<open>chunks\<close>, the status error of
  chunk number \<open>i + 1\<close>, and the transfer errors.\<close>

datatype js_error =
    DownloadInProgress
  | ManifestNotLoaded
  | MonthNotFound string
  | ChunksUndefined
  | ChunkStatus nat nat
  | Transfer transfer_error

text \<open>
  One \<open>await reader.read()\<close> that is not \<open>done\<close>: a rejection, or the bytes of \<open>value\<close>
  together with the text that \<open>decoder.decode(value, {stream: true})\<close> returns for them.
  The decoder belongs to the browser: it drops a byte order mark at the start of a chunk,
  holds back a sequence that the next read completes, and replaces what is not UTF-8, so
  that its text is given with the read and not computed from the bytes. For bytes that
  are ASCII the text is the bytes themselves (\<open>ascii_read\<close>). The end of the list is the
  read that reports \<open>done\<close>.
\<close>

datatype read_result = Value string string | ReadRejected transfer_error

definition ascii_read :: "string \<Rightarrow> read_result" where
  "ascii_read v = Value v v"

text \<open>\<open>await fetch(chunkUrl, {signal})\<close>: a rejection, or a response with \<open>response.ok\<close>,
  \<open>response.status\<close> and the reads of its body.\<close>

datatype fetch_result = FetchRejected transfer_error | Response bool nat "read_result list"

text \<open>What the downloader cannot decide itself: the value of
  \<open>abortController.signal.aborted\<close> when iteration \<open>i\<close> of the chunk loop tests it, and what
  the fetch of iteration \<open>i\<close> for a URL does.\<close>

record env =
  aborted_at_check :: "nat \<Rightarrow> bool"
  fetch :: "nat \<Rightarrow> string \<Rightarrow> fetch_result"

record chunk_descriptor =
  filename :: string
  size :: nat

record month_data =
  chunks :: "chunk_descriptor list"
  total_size :: nat

record summary =
  latest_month :: string

text \<open>
  What \<open>manifest.months[yyyymm]\<close> can be for the tests the code makes on it: a month entry
  with its \<open>chunks\<close>; a value that passes \<open>if (!monthData)\<close> but has no \<open>chunks\<close>, as every
  member that \<open>months\<close> inherits from \<open>Object.prototype\<close>; a value that fails the test
  (\<open>null\<close>, \<open>0\<close>, \<open>false\<close>, the empty string, or \<open>undefined\<close> for a key that is not there).
\<close>

datatype property = Entry month_data | Truthy | Falsy

definition object_prototype :: "string list" where
  "object_prototype =
     [''constructor'', ''__defineGetter__'', ''__defineSetter__'', ''hasOwnProperty'',
      ''__lookupGetter__'', ''__lookupSetter__'', ''isPrototypeOf'', ''propertyIsEnumerable'',
      ''toString'', ''valueOf'', ''__proto__'', ''toLocaleString'']"

text \<open>The manifest: \<open>months\<close> holds the own properties of \<open>manifest.months\<close>.\<close>

record manifest =
  summary :: "summary option"
  months :: "string \<rightharpoonup> property"

text \<open>\<open>manifest.months[key]\<close>\<close>

definition month_property :: "manifest \<Rightarrow> string \<Rightarrow> property" where
  "month_property m key =
     (case months m key of
        Some p \<Rightarrow> p
      | None \<Rightarrow> if key \<in> set object_prototype then Truthy else Falsy)"

text \<open>The object passed to \<open>onProgress\<close>: type, chunkIndex, totalChunks, bytesDownloaded,
  totalBytes (no chunk fields on \<open>complete\<close>).\<close>

datatype progress =
    ChunkEvent nat nat nat nat
  | ProgressEvent nat nat nat nat
  | CompleteEvent nat nat

text \<open>The state of \<open>start(controller)\<close>: the counter, the byte arrays enqueued so far, the
  notifications delivered so far and the URLs fetched so far.\<close>

record stream =
  bytesDownloaded :: nat
  enqueued :: "string list"
  notifications :: "progress list"
  requests :: "string list"

definition empty_stream :: stream where
  "empty_stream = \<lparr>bytesDownloaded = 0, enqueued = [], notifications = [], requests = []\<rparr>"

text \<open>The \<open>while (true)\<close> loop over the body of chunk \<open>i\<close> (of \<open>n\<close>, \<open>totalSize\<close> bytes in the
  month): returns the remaining buffer, or the error of the rejected read.\<close>

fun read_loop ::
  "nat \<Rightarrow> nat \<Rightarrow> nat \<Rightarrow> read_result list \<Rightarrow> string \<Rightarrow> stream \<Rightarrow> (transfer_error + string) \<times> stream"
where
  "read_loop i n totalSize [] buffer st = (Inr buffer, st)"
| "read_loop i n totalSize (ReadRejected e # rs) buffer st = (Inl e, st)"
| "read_loop i n totalSize (Value v decoded # rs) buffer st =
     (let st1 = st\<lparr>bytesDownloaded := bytesDownloaded st + length v\<rparr>;
          lines = split_nl (buffer @ decoded);
          st2 = st1\<lparr>enqueued := enqueued st1 @ map (\<lambda>line. line @ [nl]) (butlast lines)\<rparr>;
          st3 = st2\<lparr>notifications := notifications st2 @
                  [ProgressEvent i n (bytesDownloaded st2) totalSize]\<rparr>
      in read_loop i n totalSize rs (last lines) st3)"

text \<open>\<open>if (buffer) controller.enqueue(buffer + '\n')\<close> after the body of a chunk.\<close>

definition flush_buffer :: "string \<Rightarrow> stream \<Rightarrow> stream" where
  "flush_buffer buffer st =
     (if buffer = [] then st else st\<lparr>enqueued := enqueued st @ [buffer @ [nl]]\<rparr>)"

datatype stream_end = Completed | ClosedOnAbort | Errored js_error

definition chunk_url :: "string \<Rightarrow> string \<Rightarrow> string \<Rightarrow> string" where
  "chunk_url base ds file = base @ ''data/'' @ ds @ ''/'' @ file"

text \<open>The \<open>for\<close> loop of \<open>start\<close>, from iteration \<open>i\<close> on, over the chunks still to fetch.\<close>

fun start_loop ::
  "env \<Rightarrow> string \<Rightarrow> string \<Rightarrow> nat \<Rightarrow> nat \<Rightarrow> nat \<Rightarrow> chunk_descriptor list \<Rightarrow> stream \<Rightarrow>
   stream_end \<times> stream"
where
  "start_loop e base ds n totalSize i [] st =
     (Completed, st\<lparr>notifications := notifications st @
        [CompleteEvent (bytesDownloaded st) totalSize]\<rparr>)"
| "start_loop e base ds n totalSize i (c # cs) st =
     (if aborted_at_check e i then (ClosedOnAbort, st)
      else
        let url = chunk_url base ds (filename c);
            st1 = st\<lparr>notifications := notifications st @
                    [ChunkEvent i n (bytesDownloaded st) totalSize]\<rparr>;
            st2 = st1\<lparr>requests := requests st1 @ [url]\<rparr>
        in case fetch e i url of
             FetchRejected err \<Rightarrow> (Errored (Transfer err), st2)
           | Response ok status body \<Rightarrow>
               if \<not> ok then (Errored (ChunkStatus (i + 1) status), st2)
               else (case read_loop i n totalSize body [] st2 of
                       (Inl err, st3) \<Rightarrow> (Errored (Transfer err), st3)
                     | (Inr buffer, st3) \<Rightarrow>
                         start_loop e base ds n totalSize (i + 1) cs (flush_buffer buffer st3)))"

record downloader =
  dataset :: string
  baseUrl :: string
  manifest :: "manifest option"
  isDownloading :: bool
  abortController :: "bool option"

text \<open>The result of an \<open>async\<close> method: the error the promise rejects with (\<open>None\<close> when
  it resolves), the downloader afterwards, the files handed to the browser's download
  (name and content of each clicked link), and the state of the stream.\<close>

record download_result =
  thrown :: "js_error option"
  after :: downloader
  saved :: "(string \<times> string) list"
  streamed :: stream

definition download_name :: "string \<Rightarrow> string \<Rightarrow> string" where
  "download_name ds yyyymm = ''crux_'' @ ds @ ''_'' @ yyyymm @ ''.csv''"

text \<open>
  \<open>streamDownload\<close>. On a month value without \<open>chunks\<close>, \<open>chunks.length\<close> throws before
  the stream exists. Otherwise the stream closes (all chunks done, or the abort test
  fired) and its blob is saved under the download name, or it is errored and \<open>blob()\<close>
  rejects.
\<close>

definition streamDownload ::
  "env \<Rightarrow> downloader \<Rightarrow> string \<Rightarrow> property \<Rightarrow> js_error option \<times> (string \<times> string) list \<times> stream"
where
  "streamDownload e d yyyymm monthData =
     (case monthData of
        Entry md \<Rightarrow>
          (case start_loop e (baseUrl d) (dataset d) (length (chunks md))
                  (total_size md) 0 (chunks md) empty_stream of
             (Errored err, st) \<Rightarrow> (Some err, [], st)
           | (_, st) \<Rightarrow> (None, [(download_name (dataset d) yyyymm, concat (enqueued st))], st))
      | _ \<Rightarrow> (Some ChunksUndefined, [], empty_stream))"

text \<open>
  \<open>downloadMonth\<close> runs in two pieces, with the \<open>await\<close> of \<open>streamDownload\<close> between them.
  The first piece (lines 106 to 116) throws, or raises the flag, makes a new abort
  controller and hands the month value to \<open>streamDownload\<close>. The second piece is the
  \<open>finally\<close> block (lines 121 and 122), run when the promise of \<open>streamDownload\<close> settles.
  The three \<open>throw\<close>s of the first piece come before the \<open>try\<close>: the \<open>finally\<close> block does
  not run for them.
\<close>

definition downloadMonth_enter :: "downloader \<Rightarrow> string \<Rightarrow> js_error + downloader \<times> property" where
  "downloadMonth_enter d yyyymm =
     (if isDownloading d then Inl DownloadInProgress
      else case manifest d of
        None \<Rightarrow> Inl ManifestNotLoaded
      | Some m \<Rightarrow>
         (case month_property m yyyymm of
            Falsy \<Rightarrow> Inl (MonthNotFound yyyymm)
          | monthData \<Rightarrow>
              Inr (d\<lparr>isDownloading := True, abortController := Some False\<rparr>, monthData)))"

definition downloadMonth_finally :: "downloader \<Rightarrow> downloader" where
  "downloadMonth_finally d = d\<lparr>isDownloading := False, abortController := None\<rparr>"

definition downloadMonth :: "env \<Rightarrow> downloader \<Rightarrow> string \<Rightarrow> download_result" where
  "downloadMonth e d yyyymm =
     (case downloadMonth_enter d yyyymm of
        Inl err \<Rightarrow> \<lparr>thrown = Some err, after = d, saved = [], streamed = empty_stream\<rparr>
      | Inr (d1, monthData) \<Rightarrow>
          (case streamDownload e d1 yyyymm monthData of
             (err, files, st) \<Rightarrow>
               \<lparr>thrown = err, after = downloadMonth_finally d1, saved = files, streamed = st\<rparr>))"

definition cancelDownload :: "downloader \<Rightarrow> downloader" where
  "cancelDownload d =
     (case abortController d of None \<Rightarrow> d | Some _ \<Rightarrow> d\<lparr>abortController := Some True\<rparr>)"


subsection \<open>The downloader between the two pieces of \<open>downloadMonth\<close>\<close>

text \<open>
  JavaScript runs one piece of code at a time and to its end. While the promise of
  \<open>streamDownload\<close> is pending, between the two pieces of a call of \<open>downloadMonth\<close>, the
  page can call the methods of the same downloader: from an event handler, or from the
  \<open>onProgress\<close> callback. The life of a downloader is therefore a sequence of such
  pieces: a call of \<open>downloadMonth\<close> runs its first piece; a call of \<open>cancelDownload\<close>; a
  pending promise of \<open>streamDownload\<close> settles (resolved or rejected) and the \<open>finally\<close>
  block of its call runs. \<open>pending\<close> counts the calls of \<open>downloadMonth\<close> that are between
  their two pieces; it is not a field of the code.
\<close>

datatype action = CallDownloadMonth string | CallCancelDownload | StreamSettles

record page =
  this :: downloader
  pending :: nat

fun step :: "page \<Rightarrow> action \<Rightarrow> page" where
  "step s (CallDownloadMonth yyyymm) =
     (case downloadMonth_enter (this s) yyyymm of
        Inl err \<Rightarrow> s
      | Inr (d1, monthData) \<Rightarrow> \<lparr>this = d1, pending = pending s + 1\<rparr>)"
| "step s CallCancelDownload = s\<lparr>this := cancelDownload (this s)\<rparr>"
| "step s StreamSettles =
     (if pending s = 0 then s
      else \<lparr>this = downloadMonth_finally (this s), pending = pending s - 1\<rparr>)"

text \<open>A downloader fresh from its constructor, with its manifest loaded or not, and the
  page after a sequence of pieces.\<close>

definition constructed :: "downloader \<Rightarrow> bool" where
  "constructed d = (\<not> isDownloading d \<and> abortController d = None)"

definition life :: "downloader \<Rightarrow> action list \<Rightarrow> page" where
  "life d acts = foldl step \<lparr>this = d, pending = 0\<rparr> acts"

subsection \<open>The caller (ui.js)\<close>

text \<open>The progress text that \<open>startDownload\<close> leaves: after the awaited \<open>downloadMonth\<close>
  resolves, or from \<open>handleDownloadError\<close>.\<close>

datatype ui_text = DownloadCompleteText | DownloadCancelledText | DownloadFailedText

definition handleDownloadError :: "js_error \<Rightarrow> ui_text" where
  "handleDownloadError err =
     (if err = Transfer AbortError then DownloadCancelledText else DownloadFailedText)"

text \<open>\<open>startDownload\<close>, the button that takes no month: it reads
  \<open>manifest.summary.latest_month\<close> (a \<open>TypeError\<close> outside the \<open>try\<close>, here \<open>None\<close>, when
  there is no manifest or no summary) and downloads that month.\<close>

definition startDownload :: "env \<Rightarrow> downloader \<Rightarrow> (ui_text \<times> download_result) option" where
  "startDownload e d =
     (case manifest d of
        None \<Rightarrow> None
      | Some m \<Rightarrow>
         (case summary m of
            None \<Rightarrow> None
          | Some s \<Rightarrow>
              let r = downloadMonth e d (latest_month s)
              in Some (case thrown r of
                         None \<Rightarrow> DownloadCompleteText
                       | Some err \<Rightarrow> handleDownloadError err, r)))"

section \<open>The shell downloader (download.sh)\<close>

text \<open>
  The script sees the network through \<open>curl -sSL url\<close> only: its exit status and its
  standard output. The working directory is a map from file names to contents.
\<close>

type_synonym curl = "string \<Rightarrow> nat \<times> string"

type_synonym files = "string \<rightharpoonup> string"

text \<open>
  What \<open>curl -sSL\<close> (no \<open>--fail\<close>) makes of a transfer, after redirects: a transfer that
  fails below HTTP gives a non-zero exit status (6 could not resolve host, 7 failed to
  connect, ...) and no output; an HTTP response of any status gives exit status 0 and
  the response body on standard output.
\<close>

datatype http_result = Unreachable nat | Http nat string

fun curl_sSL :: "http_result \<Rightarrow> nat \<times> string" where
  "curl_sSL (Unreachable code) = (code, [])"
| "curl_sSL (Http status body) = (0, body)"

abbreviation dq :: char where
  "dq \<equiv> CHR 0x22"

definition REPO_BASE :: string where
  "REPO_BASE = ''https://raw.githubusercontent.com/lonetis/crux/main''"

text \<open>\<open>$(...)\<close> removes the trailing line feeds of the output it captures.\<close>

definition strip_nl :: "string \<Rightarrow> string" where
  "strip_nl s = rev (dropWhile (\<lambda>c. c = nl) (rev s))"

text \<open>\<open>tr '[:upper:]' '[:lower:]'\<close>, byte by byte: the letters \<open>A\<close> to \<open>Z\<close> are lowered, every
  other byte is kept (as in the C and the UTF-8 locales).\<close>

definition lower_char :: "char \<Rightarrow> char" where
  "lower_char c =
     (let k = (of_char c :: nat) in if 65 \<le> k \<and> k \<le> 90 then char_of (k + 32) else c)"

definition is_digit :: "char \<Rightarrow> bool" where
  "is_digit c = (let k = (of_char c :: nat) in 48 \<le> k \<and> k \<le> 57)"

text \<open>\<open>[[ "$REQUESTED_MONTH" =~ ^[0-9]{6}$ ]]\<close>\<close>

definition is_month_format :: "string \<Rightarrow> bool" where
  "is_month_format m = (length m = 6 \<and> list_all is_digit m)"

text \<open>
  \<open>echo "$X"\<close> of bash: the text and a line feed, unless the text is a dash followed by
  one or more of the letters \<open>n\<close>, \<open>e\<close>, \<open>E\<close>. That is a group of options: nothing of it is
  printed, and with an \<open>n\<close> in it not even the line feed.
\<close>

definition echo_option :: "string \<Rightarrow> bool" where
  "echo_option x =
     (case x of
        [] \<Rightarrow> False
      | c # cs \<Rightarrow> c = CHR ''-'' \<and> cs \<noteq> [] \<and> list_all (\<lambda>k. k \<in> set ''neE'') cs)"

definition echo_out :: "string \<Rightarrow> string" where
  "echo_out x =
     (if echo_option x then (if CHR ''n'' \<in> set x then [] else [nl]) else x @ [nl])"

text \<open>The lines that \<open>echo "$X" | ...\<close> feeds into a filter, and the count of \<open>wc -l\<close>.\<close>

definition echo_lines :: "string \<Rightarrow> string list" where
  "echo_lines x = lines_of (echo_out x)"

definition wc_l :: "string \<Rightarrow> nat" where
  "wc_l s = length (filter (\<lambda>c. c = nl) s)"

text \<open>\<open>"\"$TARGET_MONTH\""\<close>, the pattern of both month searches.\<close>

definition quoted :: "string \<Rightarrow> string" where
  "quoted m = [dq] @ m @ [dq]"

text \<open>
  \<open>grep -q pat\<close> for a pattern that stands for itself (a quoted string of digits has no
  special character): some line contains it.
\<close>

definition grep_q :: "string \<Rightarrow> string list \<Rightarrow> bool" where
  "grep_q pat ls = list_ex (sublist pat) ls"

text \<open>
  \<open>grep -A 1000 pat\<close>: every line that contains the pattern and the \<open>k\<close> lines after it.
  (The \<open>--\<close> lines that grep prints between groups hold no \<open>"filename"\<close> and are left
  out.) The counter is the number of context lines still to print.
\<close>

fun grep_A :: "nat \<Rightarrow> string \<Rightarrow> nat \<Rightarrow> string list \<Rightarrow> string list" where
  "grep_A k pat r [] = []"
| "grep_A k pat r (l # ls) =
     (if sublist pat l then l # grep_A k pat k ls
      else if 0 < r then l # grep_A k pat (r - 1) ls
      else grep_A k pat 0 ls)"

text \<open>
  One match of the pattern \<open>"key": *"[^"]*"\<close> at the start of a text: the quoted key and a
  colon, any number of spaces, a quote, the characters up to the next quote. Returns
  the text between the last two quotes, which is field 4 of the match for
  \<open>cut -d'"' -f4\<close>, and the text after the match.
\<close>

definition match_kv :: "string \<Rightarrow> string \<Rightarrow> (string \<times> string) option" where
  "match_kv key s =
     (let pat = quoted key @ '':'' in
      if prefix pat s then
        (case dropWhile (\<lambda>c. c = CHR '' '') (drop (length pat) s) of
           [] \<Rightarrow> None
         | c # r \<Rightarrow>
             if c = dq \<and> dq \<in> set r
             then Some (takeWhile (\<lambda>c. c \<noteq> dq) r, tl (dropWhile (\<lambda>c. c \<noteq> dq) r))
             else None)
      else None)"

text \<open>\<open>grep -o '"key": *"[^"]*"' | cut -d'"' -f4\<close> on one line: the values of the
  matches, from left to right, a match starting only after the one before it.\<close>

function grep_o_kv :: "string \<Rightarrow> string \<Rightarrow> string list" where
  "grep_o_kv key [] = []"
| "grep_o_kv key (c # cs) =
     (case match_kv key (c # cs) of
        Some (v, rest) \<Rightarrow> v # grep_o_kv key rest
      | None \<Rightarrow> grep_o_kv key cs)"
  by pat_completeness auto
termination
proof (relation "measure (\<lambda>(key, s). length s)")
  show "wf (measure (\<lambda>(key, s). length s))"
    by simp
next
  fix key :: string and c :: char and cs x2 v rest
  assume m: "match_kv key (c # cs) = Some x2" and x2: "(v, rest) = x2"
  let ?pat = "quoted key @ '':''"
  let ?t = "dropWhile (\<lambda>c. c = CHR '' '') (drop (length ?pat) (c # cs))"
  from m x2 obtain r where t: "?t = dq # r" and rest: "rest = tl (dropWhile (\<lambda>c. c \<noteq> dq) r)"
    by (auto simp: match_kv_def Let_def split: if_splits list.splits)
  have "length (dropWhile (\<lambda>c. c \<noteq> dq) r) \<le> length r"
    by (rule length_dropWhile_le)
  then have "length rest \<le> length r"
    unfolding rest by simp
  moreover have "length ?t \<le> length (c # cs)"
    by (rule order_trans[OF length_dropWhile_le]) simp
  ultimately have "length rest < length (c # cs)"
    using t by simp
  then show "((key, rest), (key, c # cs)) \<in> measure (\<lambda>(key, s). length s)"
    by simp
next
  fix key :: string and c :: char and cs
  show "((key, cs), (key, c # cs)) \<in> measure (\<lambda>(key, s). length s)"
    by simp
qed

text \<open>What a variable holds after \<open>X=$(... | cut -d'"' -f4)\<close>: one value per line.\<close>

definition captured :: "string list \<Rightarrow> string" where
  "captured vs = strip_nl (concat (map (\<lambda>v. v @ [nl]) vs))"

text \<open>Line 82: the value of \<open>"latest_month"\<close> in the manifest.\<close>

definition latest_of :: "string \<Rightarrow> string" where
  "latest_of man = captured (concat (map (grep_o_kv ''latest_month'') (echo_lines man)))"

text \<open>
  Line 93: the file names found on the lines that hold the quoted month and on the 1000
  lines after each of them, whatever month those lines belong to. The pattern is
  searched as a string, which is what \<open>grep\<close> does for a month without a character
  special to it, as every month of six digits is.
\<close>

definition chunks_of :: "string \<Rightarrow> string \<Rightarrow> string" where
  "chunks_of man m =
     captured (concat (map (grep_o_kv ''filename'')
        (grep_A 1000 (quoted m) 0 (echo_lines man))))"

text \<open>\<open>for CHUNK_FILE in $CHUNKS\<close>: the words between spaces, tabs and line feeds (file
  names hold no \<open>*\<close>, \<open>?\<close> or \<open>[\<close> for the shell to expand).\<close>

definition is_ifs :: "char \<Rightarrow> bool" where
  "is_ifs c = (c = CHR '' '' \<or> c = CHR 0x09 \<or> c = nl)"

fun words_acc :: "string \<Rightarrow> string \<Rightarrow> string list" where
  "words_acc w [] = (if w = [] then [] else [w])"
| "words_acc w (c # cs) =
     (if is_ifs c then (if w = [] then words_acc [] cs else w # words_acc [] cs)
      else words_acc (w @ [c]) cs)"

definition words_of :: "string \<Rightarrow> string list" where
  "words_of s = words_acc [] s"

datatype sh_exit =
    Usage
  | MonthFormatError
  | Errexit nat
  | DatasetNotFound
  | MonthMissing
  | NoDataAvailable
  | NoChunksFound
  | ChunkDownloadFailed string
  | DownloadComplete

text \<open>The exit status of the script, and whether it printed an error message before
  it stopped: under \<open>set -e\<close> a failing \<open>MANIFEST=$(curl ...)\<close> ends the script with curl's
  status at once, before line 58.\<close>

fun exit_status :: "sh_exit \<Rightarrow> nat" where
  "exit_status DownloadComplete = 0"
| "exit_status (Errexit code) = code"
| "exit_status _ = 1"

fun diagnostic :: "sh_exit \<Rightarrow> bool" where
  "diagnostic DownloadComplete = False"
| "diagnostic (Errexit code) = False"
| "diagnostic _ = True"

record sh_result =
  exit :: sh_exit
  files_after :: files
  fetched :: "string list"

definition sh_chunk_url :: "string \<Rightarrow> string \<Rightarrow> string" where
  "sh_chunk_url ds file = REPO_BASE @ ''/data/'' @ ds @ ''/'' @ file"

text \<open>Lines 116 to 131: \<open>curl ... >> "$OUTPUT_FILE"\<close> for each chunk; the first failing
  curl removes the file and ends the script.\<close>

fun chunk_loop :: "curl \<Rightarrow> string \<Rightarrow> string \<Rightarrow> string list \<Rightarrow> files \<Rightarrow> string list \<Rightarrow> sh_result" where
  "chunk_loop c ds out [] fs urls =
     \<lparr>exit = DownloadComplete, files_after = fs, fetched = urls\<rparr>"
| "chunk_loop c ds out (f # rest) fs urls =
     (let url = sh_chunk_url ds f in
      case c url of (code, body) \<Rightarrow>
        if code = 0
        then chunk_loop c ds out rest
               (fs(out \<mapsto> (case fs out of None \<Rightarrow> [] | Some old \<Rightarrow> old) @ body)) (urls @ [url])
        else \<lparr>exit = ChunkDownloadFailed f, files_after = fs(out := None),
               fetched = urls @ [url]\<rparr>)"

text \<open>Lines 104 to 144, for the resolved month and its chunk files.\<close>

definition sh_download :: "curl \<Rightarrow> string \<Rightarrow> string \<Rightarrow> string list \<Rightarrow> files \<Rightarrow> string list \<Rightarrow> sh_result" where
  "sh_download c ds m fnames fs urls =
     (let out = m @ ''.csv'';
          fs1 = (if fs out \<noteq> None then fs(out := None) else fs)
      in chunk_loop c ds out fnames fs1 urls)"

text \<open>Lines 92 to 99, then the download.\<close>

definition sh_fetch_month :: "curl \<Rightarrow> string \<Rightarrow> string \<Rightarrow> string \<Rightarrow> files \<Rightarrow> string list \<Rightarrow> sh_result" where
  "sh_fetch_month c ds man m fs urls =
     (let CHUNKS = chunks_of man m;
          CHUNK_COUNT = wc_l (echo_out CHUNKS)
      in if CHUNKS = [] \<or> CHUNK_COUNT = 0
         then \<lparr>exit = NoChunksFound, files_after = fs, fetched = urls\<rparr>
         else sh_download c ds m (words_of CHUNKS) fs urls)"

text \<open>\<open>DATASET="${1:-global}"\<close>, then (line 45) lower-cased through a pipe.\<close>

definition dataset_arg :: "string option \<Rightarrow> string" where
  "dataset_arg arg1 = (case arg1 of None \<Rightarrow> ''global'' | Some a \<Rightarrow> if a = [] then ''global'' else a)"

definition dataset_name :: "string option \<Rightarrow> string" where
  "dataset_name arg1 = strip_nl (map lower_char (echo_out (dataset_arg arg1)))"

text \<open>\<open>REQUESTED_MONTH="${2:-}"\<close>\<close>

definition requested_month :: "string option \<Rightarrow> string" where
  "requested_month arg2 = (case arg2 of None \<Rightarrow> [] | Some a \<Rightarrow> a)"

definition manifest_url :: "string \<Rightarrow> string" where
  "manifest_url ds = REPO_BASE @ ''/data/'' @ ds @ ''/manifest.json''"

text \<open>
  Lines 19 to 90: the two positional arguments (absent or given) and the network give
  an early exit, or the lower-cased dataset, the manifest and the month to download. The
  URLs fetched so far come with both. The script runs under \<open>set -e\<close>: when the \<open>curl\<close> in
  \<open>MANIFEST=$(curl ...)\<close> exits with a non-zero status, the assignment has that status and
  the script ends with it, so that the test \<open>[ $? -ne 0 ]\<close> of line 58 only ever sees 0.
\<close>

definition sh_resolve ::
  "curl \<Rightarrow> string option \<Rightarrow> string option \<Rightarrow>
   (sh_exit \<times> string list) + (string \<times> string \<times> string \<times> string list)"
where
  "sh_resolve c arg1 arg2 =
     (let REQUESTED_MONTH = requested_month arg2
      in if dataset_arg arg1 = [] then Inl (Usage, [])
         else if REQUESTED_MONTH \<noteq> [] \<and> \<not> is_month_format REQUESTED_MONTH
         then Inl (MonthFormatError, [])
         else
           let ds = dataset_name arg1;
               url = manifest_url ds
           in case c url of (code, output) \<Rightarrow>
                if code \<noteq> 0 then Inl (Errexit code, [url])
                else
                  let MANIFEST = strip_nl output in
                  if MANIFEST = [] then Inl (DatasetNotFound, [url])
                  else if REQUESTED_MONTH \<noteq> []
                  then (if \<not> grep_q (quoted REQUESTED_MONTH) (echo_lines MANIFEST)
                        then Inl (MonthMissing, [url])
                        else Inr (ds, MANIFEST, REQUESTED_MONTH, [url]))
                  else
                    let TARGET_MONTH = latest_of MANIFEST in
                    if TARGET_MONTH = [] then Inl (NoDataAvailable, [url])
                    else Inr (ds, MANIFEST, TARGET_MONTH, [url]))"

text \<open>The whole script, on a working directory.\<close>

definition sh_run :: "curl \<Rightarrow> files \<Rightarrow> string option \<Rightarrow> string option \<Rightarrow> sh_result" where
  "sh_run c fs arg1 arg2 =
     (case sh_resolve c arg1 arg2 of
        Inl (ex, urls) \<Rightarrow> \<lparr>exit = ex, files_after = fs, fetched = urls\<rparr>
      | Inr (ds, man, m, urls) \<Rightarrow> sh_fetch_month c ds man m fs urls)"

section \<open>Vocabulary of the properties\<close>

text \<open>
  The network delivers every chunk from iteration \<open>i\<close> on: no abort is seen, every fetch
  answers with \<open>response.ok\<close>, and the reads of chunk \<open>k\<close> return the byte arrays of the
  \<open>k\<close>-th list, whatever their decoded text.
\<close>

fun read_bytes :: "read_result \<Rightarrow> string option" where
  "read_bytes (Value v decoded) = Some v"
| "read_bytes (ReadRejected err) = None"

fun delivers ::
  "env \<Rightarrow> string \<Rightarrow> string \<Rightarrow> nat \<Rightarrow> chunk_descriptor list \<Rightarrow> string list list \<Rightarrow> bool"
where
  "delivers e base ds i [] [] = True"
| "delivers e base ds i (c # cs) (vs # vss) =
     ((if aborted_at_check e i then False
       else case fetch e i (chunk_url base ds (filename c)) of
              FetchRejected err \<Rightarrow> False
            | Response ok status body \<Rightarrow> ok \<and> map read_bytes body = map Some vs)
      \<and> delivers e base ds (i + 1) cs vss)"
| "delivers e base ds i _ _ = False"

text \<open>Every \<open>curl\<close> of the chunk files exits with status 0; what they print.\<close>

definition all_ok :: "curl \<Rightarrow> string \<Rightarrow> string list \<Rightarrow> bool" where
  "all_ok c ds fnames = list_all (\<lambda>f. fst (c (sh_chunk_url ds f)) = 0) fnames"

definition bodies :: "curl \<Rightarrow> string \<Rightarrow> string list \<Rightarrow> string list" where
  "bodies c ds fnames = map (\<lambda>f. snd (c (sh_chunk_url ds f))) fnames"

text \<open>\<open>bytesDownloaded\<close> of a notification, and the notifications that end a download
  (the code has no \<open>failed\<close> type).\<close>

fun bytes_of :: "progress \<Rightarrow> nat" where
  "bytes_of (ChunkEvent i n b t) = b"
| "bytes_of (ProgressEvent i n b t) = b"
| "bytes_of (CompleteEvent b t) = b"

fun terminal :: "progress \<Rightarrow> bool" where
  "terminal (CompleteEvent b t) = True"
| "terminal _ = False"

text \<open>A site: the dataset ids listed in \<open>data/datasets.json\<close>, and what it answers.\<close>

record site =
  dataset_ids :: "string list"
  serve :: "string \<Rightarrow> http_result"

definition curl_on :: "site \<Rightarrow> curl" where
  "curl_on s url = curl_sSL (serve s url)"

section \<open>Concrete months\<close>

text \<open>The month of the specification's scenario: two chunks, the first ends inside the
  row of \<open>https://b.com\<close>.\<close>

definition chunk_a :: string where
  "chunk_a = ''origin,rank'' @ [nl] @ ''https://a.com,1000'' @ [nl] @ ''https://b.co''"

definition chunk_b :: string where
  "chunk_b = ''m,1000'' @ [nl] @ ''https://c.com,5000'' @ [nl]"

text \<open>The same rows, cut between two rows.\<close>

definition chunk_a' :: string where
  "chunk_a' = ''origin,rank'' @ [nl] @ ''https://a.com,1000'' @ [nl]"

definition chunk_b' :: string where
  "chunk_b' = ''https://b.com,1000'' @ [nl] @ ''https://c.com,5000'' @ [nl]"

definition month_202510 :: month_data where
  "month_202510 =
     \<lparr>chunks = [\<lparr>filename = ''a.csv'', size = 43\<rparr>, \<lparr>filename = ''b.csv'', size = 26\<rparr>],
      total_size = 69\<rparr>"

definition global_downloader :: downloader where
  "global_downloader =
     \<lparr>dataset = ''global'', baseUrl = ''../'',
      manifest = Some \<lparr>summary = Some \<lparr>latest_month = ''202510''\<rparr>,
                       months = [''202510'' \<mapsto> Entry month_202510]\<rparr>,
      isDownloading = False, abortController = None\<rparr>"

text \<open>The network of the scenario; the first chunk arrives in two reads.\<close>

definition split_env :: env where
  "split_env =
     \<lparr>aborted_at_check = (\<lambda>i. False),
      fetch = (\<lambda>i url.
        if url = ''../data/global/a.csv''
        then Response True 200 [ascii_read (''origin,rank'' @ [nl] @ ''https://a.c''),
                                ascii_read (''om,1000'' @ [nl] @ ''https://b.co'')]
        else if url = ''../data/global/b.csv'' then Response True 200 [ascii_read chunk_b]
        else Response False 404 [])\<rparr>"

definition aligned_env :: env where
  "aligned_env =
     \<lparr>aborted_at_check = (\<lambda>i. False),
      fetch = (\<lambda>i url.
        if url = ''../data/global/a.csv'' then Response True 200 [ascii_read chunk_a']
        else if url = ''../data/global/b.csv'' then Response True 200 [ascii_read chunk_b']
        else Response False 404 [])\<rparr>"

text \<open>\<open>cancelDownload()\<close> has run when the loop tests the signal before the second chunk.\<close>

definition cancel_env :: env where
  "cancel_env = aligned_env\<lparr>aborted_at_check := (\<lambda>i. i = 1)\<rparr>"

text \<open>The connection is lost when the second chunk is fetched.\<close>

definition failing_env :: env where
  "failing_env =
     \<lparr>aborted_at_check = (\<lambda>i. False),
      fetch = (\<lambda>i url.
        if url = ''../data/global/a.csv'' then Response True 200 [ascii_read chunk_a']
        else FetchRejected NetworkFailure)\<rparr>"

text \<open>The second chunk is not on the server.\<close>

definition missing_chunk_env :: env where
  "missing_chunk_env =
     \<lparr>aborted_at_check = (\<lambda>i. False),
      fetch = (\<lambda>i url.
        if url = ''../data/global/a.csv'' then Response True 200 [ascii_read chunk_a']
        else Response False 404 [])\<rparr>"

text \<open>The signal is aborted while the body of the second chunk is read.\<close>

definition abort_env :: env where
  "abort_env =
     \<lparr>aborted_at_check = (\<lambda>i. False),
      fetch = (\<lambda>i url.
        if url = ''../data/global/a.csv'' then Response True 200 [ascii_read chunk_a']
        else Response True 200 [ascii_read ''https://b.com'', ReadRejected AbortError])\<rparr>"

text \<open>The manifest of the month as the shell script reads it.\<close>

definition manifest_text :: string where
  "manifest_text =
     ''{'' @ quoted ''months'' @ '': {'' @ quoted ''202510'' @ '': {'' @ quoted ''chunks'' @ '': [''
       @ ''{'' @ quoted ''filename'' @ '': '' @ quoted ''a.csv'' @ ''}, ''
       @ ''{'' @ quoted ''filename'' @ '': '' @ quoted ''b.csv'' @ ''}]}}, ''
       @ quoted ''summary'' @ '': {'' @ quoted ''latest_month'' @ '': '' @ quoted ''202510''
       @ ''}}''"

definition not_found_page :: http_result where
  "not_found_page = Http 404 ''404: Not Found''"

text \<open>The site with the split month; the site with the same rows cut between two rows;
  the site whose second chunk is missing; a site that cannot be reached. What a site does
  not have it answers with status 404 and a page.\<close>

definition split_site :: site where
  "split_site =
     \<lparr>dataset_ids = [''global''],
      serve = (\<lambda>url.
        if url = manifest_url ''global'' then Http 200 manifest_text
        else if url = sh_chunk_url ''global'' ''a.csv'' then Http 200 chunk_a
        else if url = sh_chunk_url ''global'' ''b.csv'' then Http 200 chunk_b
        else not_found_page)\<rparr>"

definition aligned_site :: site where
  "aligned_site =
     \<lparr>dataset_ids = [''global''],
      serve = (\<lambda>url.
        if url = manifest_url ''global'' then Http 200 manifest_text
        else if url = sh_chunk_url ''global'' ''a.csv'' then Http 200 chunk_a'
        else if url = sh_chunk_url ''global'' ''b.csv'' then Http 200 chunk_b'
        else not_found_page)\<rparr>"

definition missing_chunk_site :: site where
  "missing_chunk_site =
     \<lparr>dataset_ids = [''global''],
      serve = (\<lambda>url.
        if url = manifest_url ''global'' then Http 200 manifest_text
        else if url = sh_chunk_url ''global'' ''a.csv'' then Http 200 chunk_a'
        else not_found_page)\<rparr>"

definition unreachable_site :: site where
  "unreachable_site = \<lparr>dataset_ids = [''global''], serve = (\<lambda>url. Unreachable 6)\<rparr>"

text \<open>A site that loses the connection on the second chunk, and a working directory
  that holds an older download of the month.\<close>

definition broken_site :: site where
  "broken_site =
     \<lparr>dataset_ids = [''global''],
      serve = (\<lambda>url.
        if url = manifest_url ''global'' then Http 200 manifest_text
        else if url = sh_chunk_url ''global'' ''a.csv'' then Http 200 chunk_a'
        else Unreachable 7)\<rparr>"

definition old_dir :: files where
  "old_dir = [''202510.csv'' \<mapsto> ''origin,rank'' @ [nl] @ ''https://old.example,1000'' @ [nl]]"

text \<open>
  A dataset with two months. September has one chunk; October is the month above, cut
  between two rows. The manifest is printed with one month on a line, September first.
\<close>

definition chunk_s :: string where
  "chunk_s = ''origin,rank'' @ [nl] @ ''https://s.com,1000'' @ [nl]"

definition month_202509 :: month_data where
  "month_202509 = \<lparr>chunks = [\<lparr>filename = ''s.csv'', size = 31\<rparr>], total_size = 31\<rparr>"

definition two_month_downloader :: downloader where
  "two_month_downloader =
     \<lparr>dataset = ''global'', baseUrl = ''../'',
      manifest = Some \<lparr>summary = Some \<lparr>latest_month = ''202510''\<rparr>,
                       months = [''202509'' \<mapsto> Entry month_202509,
                                 ''202510'' \<mapsto> Entry month_202510]\<rparr>,
      isDownloading = False, abortController = None\<rparr>"

definition two_month_env :: env where
  "two_month_env =
     \<lparr>aborted_at_check = (\<lambda>i. False),
      fetch = (\<lambda>i url.
        if url = ''../data/global/s.csv'' then Response True 200 [ascii_read chunk_s]
        else if url = ''../data/global/a.csv'' then Response True 200 [ascii_read chunk_a']
        else if url = ''../data/global/b.csv'' then Response True 200 [ascii_read chunk_b']
        else Response False 404 [])\<rparr>"

definition two_month_manifest_text :: string where
  "two_month_manifest_text =
     ''{'' @ quoted ''months'' @ '': {'' @ [nl]
       @ '' '' @ quoted ''202509'' @ '': {'' @ quoted ''chunks'' @ '': [''
       @ ''{'' @ quoted ''filename'' @ '': '' @ quoted ''s.csv'' @ ''}]},'' @ [nl]
       @ '' '' @ quoted ''202510'' @ '': {'' @ quoted ''chunks'' @ '': [''
       @ ''{'' @ quoted ''filename'' @ '': '' @ quoted ''a.csv'' @ ''}, ''
       @ ''{'' @ quoted ''filename'' @ '': '' @ quoted ''b.csv'' @ ''}]}},'' @ [nl]
       @ '' '' @ quoted ''summary'' @ '': {'' @ quoted ''latest_month'' @ '': '' @ quoted ''202510''
       @ ''}}'' @ [nl]"

definition two_month_site :: site where
  "two_month_site =
     \<lparr>dataset_ids = [''global''],
      serve = (\<lambda>url.
        if url = manifest_url ''global'' then Http 200 two_month_manifest_text
        else if url = sh_chunk_url ''global'' ''s.csv'' then Http 200 chunk_s
        else if url = sh_chunk_url ''global'' ''a.csv'' then Http 200 chunk_a'
        else if url = sh_chunk_url ''global'' ''b.csv'' then Http 200 chunk_b'
        else not_found_page)\<rparr>"

section \<open>Lines\<close>

lemma split_nl_nonempty [simp]: "split_nl s \<noteq> []"
  by (induction s) (auto split: list.splits)





section \<open>The browser stream\<close>

lemma read_loop_bytes:
  "map read_bytes body = map Some vs \<Longrightarrow>
   (\<exists>buffer. fst (read_loop i n T body b st) = Inr buffer) \<and>
   bytesDownloaded (snd (read_loop i n T body b st)) = bytesDownloaded st + length (concat vs) \<and>
   requests (snd (read_loop i n T body b st)) = requests st"
proof (induction body arbitrary: vs b st)
  case Nil
  then show ?case by simp
next
  case (Cons r body)
  from Cons.prems obtain v vs' where vs: "vs = v # vs'"
    by (cases vs) auto
  from Cons.prems vs obtain decoded where r: "r = Value v decoded"
    by (cases r) auto
  from Cons.prems vs have rest: "map read_bytes body = map Some vs'"
    by simp
  show ?case
    using Cons.IH[OF rest] by (simp add: r vs Let_def)
qed

lemma flush_buffer_counters:
  "bytesDownloaded (flush_buffer buffer st) = bytesDownloaded st"
  "requests (flush_buffer buffer st) = requests st"
  "notifications (flush_buffer buffer st) = notifications st"
  by (simp_all add: flush_buffer_def)

lemma start_loop_delivers:
  "delivers e base ds i cs vss \<Longrightarrow>
   fst (start_loop e base ds n T i cs st) = Completed \<and>
   requests (snd (start_loop e base ds n T i cs st)) =
     requests st @ map (\<lambda>c. chunk_url base ds (filename c)) cs \<and>
   bytesDownloaded (snd (start_loop e base ds n T i cs st)) =
     bytesDownloaded st + length (concat (concat vss))"
proof (induction cs arbitrary: i vss st)
  case Nil
  then show ?case by (cases vss) auto
next
  case (Cons c cs)
  then obtain vs vss' where vss: "vss = vs # vss'" by (cases vss) auto
  from Cons.prems vss obtain status body where
    na: "\<not> aborted_at_check e i" and
    f: "fetch e i (chunk_url base ds (filename c)) = Response True status body" and
    body: "map read_bytes body = map Some vs" and
    rest: "delivers e base ds (i + 1) cs vss'"
    by (auto split: if_splits fetch_result.splits)
  let ?st2 = "st\<lparr>notifications := notifications st @ [ChunkEvent i n (bytesDownloaded st) T],
                 requests := requests st @ [chunk_url base ds (filename c)]\<rparr>"
  obtain r st3 where rl: "read_loop i n T body [] ?st2 = (r, st3)"
    by (cases "read_loop i n T body [] ?st2")
  from read_loop_bytes[OF body, of i n T "[]" ?st2] rl obtain buffer where
    r: "r = Inr buffer" and
    req: "requests st3 = requests st @ [chunk_url base ds (filename c)]" and
    byt: "bytesDownloaded st3 = bytesDownloaded st + length (concat vs)"
    by auto
  have step: "start_loop e base ds n T i (c # cs) st =
              start_loop e base ds n T (i + 1) cs (flush_buffer buffer st3)"
    using na f rl r by (simp add: Let_def)
  show ?case
    unfolding step using Cons.IH[OF rest, of "flush_buffer buffer st3"]
    by (simp add: vss req byt flush_buffer_counters)
qed


section \<open>The shell loop\<close>


lemma chunk_loop_all_ok:
  "all_ok c ds fnames \<Longrightarrow>
   chunk_loop c ds out fnames dir urls =
     \<lparr>exit = DownloadComplete,
      files_after = (if fnames = [] then dir
         else dir(out \<mapsto> (case dir out of None \<Rightarrow> [] | Some old \<Rightarrow> old) @ concat (bodies c ds fnames))),
      fetched = urls @ map (sh_chunk_url ds) fnames\<rparr>"
proof (induction fnames arbitrary: dir urls)
  case Nil
  show ?case by simp
next
  case (Cons f fnames)
  from Cons.prems have ok: "fst (c (sh_chunk_url ds f)) = 0" and rest: "all_ok c ds fnames"
    by (simp_all add: all_ok_def)
  obtain body where cf: "c (sh_chunk_url ds f) = (0, body)"
    using ok by (cases "c (sh_chunk_url ds f)") simp
  show ?case
    using Cons.IH[OF rest] cf by (auto simp: bodies_def fun_upd_def)
qed

lemma sh_download_all_ok:
  assumes "all_ok c ds fnames" and "fnames \<noteq> []"
  shows "sh_download c ds m fnames dir urls =
     \<lparr>exit = DownloadComplete,
      files_after = dir(m @ ''.csv'' \<mapsto> concat (bodies c ds fnames)),
      fetched = urls @ map (sh_chunk_url ds) fnames\<rparr>"
  using assms by (auto simp: sh_download_def chunk_loop_all_ok Let_def fun_upd_def)


section \<open>The working directory\<close>

lemma chunk_loop_failed:
  "exit (chunk_loop c ds out fnames dir urls) \<noteq> DownloadComplete \<Longrightarrow>
   files_after (chunk_loop c ds out fnames dir urls) = dir(out := None)"
proof (induction fnames arbitrary: dir urls)
  case Nil
  then show ?case by simp
next
  case (Cons f fnames)
  obtain code body where cf: "c (sh_chunk_url ds f) = (code, body)"
    by (cases "c (sh_chunk_url ds f)")
  show ?case
  proof (cases "code = 0")
    case True
    let ?dir' = "dir(out \<mapsto> (case dir out of None \<Rightarrow> [] | Some old \<Rightarrow> old) @ body)"
    have step: "chunk_loop c ds out (f # fnames) dir urls =
                chunk_loop c ds out fnames ?dir' (urls @ [sh_chunk_url ds f])"
      using cf True by simp
    from Cons.prems have "exit (chunk_loop c ds out fnames ?dir' (urls @ [sh_chunk_url ds f]))
        \<noteq> DownloadComplete"
      unfolding step .
    then have "files_after (chunk_loop c ds out fnames ?dir' (urls @ [sh_chunk_url ds f])) =
        ?dir'(out := None)"
      by (rule Cons.IH)
    then show ?thesis
      unfolding step by simp
  next
    case False
    then show ?thesis using cf by simp
  qed
qed

lemma chunk_loop_complete:
  "exit (chunk_loop c ds out fnames dir urls) = DownloadComplete \<Longrightarrow> all_ok c ds fnames"
proof (induction fnames arbitrary: dir urls)
  case Nil
  show ?case by (simp add: all_ok_def)
next
  case (Cons f fnames)
  obtain code body where cf: "c (sh_chunk_url ds f) = (code, body)"
    by (cases "c (sh_chunk_url ds f)")
  show ?case
  proof (cases "code = 0")
    case True
    with Cons.prems cf have "all_ok c ds fnames"
      by (auto intro: Cons.IH)
    with True cf show ?thesis by (simp add: all_ok_def)
  next
    case False
    with Cons.prems cf show ?thesis by simp
  qed
qed

lemma sh_download_loop:
  "sh_download c ds m fnames dir urls =
   chunk_loop c ds (m @ ''.csv'') fnames (dir(m @ ''.csv'' := None)) urls"
proof (cases "dir (m @ ''.csv'')")
  case None
  then have "dir(m @ ''.csv'' := None) = dir"
    by (simp add: fun_upd_idem)
  with None show ?thesis by (simp add: sh_download_def Let_def)
next
  case (Some old)
  then show ?thesis by (simp add: sh_download_def Let_def)
qed


lemma sh_fetch_month_loop:
  "exit (sh_fetch_month c ds man m dir urls) \<noteq> NoChunksFound \<Longrightarrow>
   sh_fetch_month c ds man m dir urls =
     chunk_loop c ds (m @ ''.csv'') (words_of (chunks_of man m)) (dir(m @ ''.csv'' := None)) urls"
  by (auto simp: sh_fetch_month_def Let_def sh_download_loop split: if_splits)


section \<open>The downloader between its pieces\<close>


lemma life_snoc: "life d (acts @ [a]) = step (life d acts) a"
  by (simp add: life_def)

lemma constructed_finally_enter:
  "constructed d \<Longrightarrow> downloadMonth_enter d yyyymm = Inr (d1, monthData) \<Longrightarrow>
   isDownloading d1 \<and> abortController d1 = Some False \<and> downloadMonth_finally d1 = d"
  by (auto simp: constructed_def downloadMonth_enter_def downloadMonth_finally_def
           split: if_splits option.splits property.splits)

lemma life_invariant:
  assumes "constructed d"
  shows "(pending (life d acts) = 0 \<and> this (life d acts) = d) \<or>
         (pending (life d acts) = 1 \<and> isDownloading (this (life d acts)) \<and>
          abortController (this (life d acts)) \<noteq> None \<and>
          downloadMonth_finally (this (life d acts)) = d)"
proof (induction acts rule: rev_induct)
  case Nil
  show ?case by (simp add: life_def)
next
  case (snoc a acts)
  let ?s = "life d acts"
  from snoc consider
      (idle) "pending ?s = 0" "this ?s = d"
    | (busy) "pending ?s = 1" "isDownloading (this ?s)" "abortController (this ?s) \<noteq> None"
        "downloadMonth_finally (this ?s) = d"
    by auto
  then show ?case
  proof cases
    case idle
    show ?thesis
    proof (cases a)
      case (CallDownloadMonth yyyymm)
      show ?thesis
      proof (cases "downloadMonth_enter d yyyymm")
        case (Inl err)
        with idle CallDownloadMonth show ?thesis by (simp add: life_snoc)
      next
        case (Inr p)
        obtain d1 monthData where p: "p = (d1, monthData)" by (cases p)
        from constructed_finally_enter[OF assms Inr[unfolded p]] idle CallDownloadMonth Inr p
        show ?thesis by (simp add: life_snoc)
      qed
    next
      case CallCancelDownload
      with idle assms show ?thesis
        by (simp add: life_snoc cancelDownload_def constructed_def)
    next
      case StreamSettles
      with idle show ?thesis by (simp add: life_snoc)
    qed
  next
    case busy
    show ?thesis
    proof (cases a)
      case (CallDownloadMonth yyyymm)
      with busy show ?thesis
        by (simp add: life_snoc downloadMonth_enter_def)
    next
      case CallCancelDownload
      with busy show ?thesis
        by (auto simp: life_snoc cancelDownload_def downloadMonth_finally_def
                 split: option.splits)
    next
      case StreamSettles
      with busy show ?thesis by (simp add: life_snoc)
    qed
  qed
qed


section \<open>Progress notifications\<close>

lemma read_loop_progress:
  assumes "sorted (map bytes_of (notifications st))"
    and "\<forall>p\<in>set (notifications st). bytes_of p \<le> bytesDownloaded st"
    and "filter terminal (notifications st) = []"
  shows "sorted (map bytes_of (notifications (snd (read_loop i n T rs b st)))) \<and>
         (\<forall>p\<in>set (notifications (snd (read_loop i n T rs b st))).
            bytes_of p \<le> bytesDownloaded (snd (read_loop i n T rs b st))) \<and>
         filter terminal (notifications (snd (read_loop i n T rs b st))) = []"
  using assms
proof (induction rs arbitrary: b st)
  case Nil
  then show ?case by simp
next
  case (Cons r rs)
  show ?case
  proof (cases r)
    case (ReadRejected err)
    with Cons.prems show ?thesis by simp
  next
    case (Value v decoded)
    let ?st' = "st\<lparr>bytesDownloaded := bytesDownloaded st + length v,
        enqueued := enqueued st @ map (\<lambda>line. line @ [nl]) (butlast (split_nl (b @ decoded))),
        notifications := notifications st @ [ProgressEvent i n (bytesDownloaded st + length v) T]\<rparr>"
    have step: "read_loop i n T (r # rs) b st = read_loop i n T rs (last (split_nl (b @ decoded))) ?st'"
      using Value by (simp add: Let_def)
    have 1: "sorted (map bytes_of (notifications ?st'))"
      using Cons.prems(1,2) by (auto simp: sorted_append)
    have 2: "\<forall>p\<in>set (notifications ?st'). bytes_of p \<le> bytesDownloaded ?st'"
      using Cons.prems(2) by auto
    have 3: "filter terminal (notifications ?st') = []"
      using Cons.prems(3) by simp
    show ?thesis
      unfolding step by (rule Cons.IH[OF 1 2 3])
  qed
qed

lemma start_loop_progress:
  assumes "sorted (map bytes_of (notifications st))"
    and "\<forall>p\<in>set (notifications st). bytes_of p \<le> bytesDownloaded st"
    and "filter terminal (notifications st) = []"
  shows "sorted (map bytes_of (notifications (snd (start_loop e base ds n T i cs st)))) \<and>
         filter terminal (notifications (snd (start_loop e base ds n T i cs st))) =
           (if fst (start_loop e base ds n T i cs st) = Completed
            then [last (notifications (snd (start_loop e base ds n T i cs st)))] else [])"
  using assms
proof (induction cs arbitrary: i st)
  case Nil
  then show ?case by (auto simp: sorted_append)
next
  case (Cons c cs)
  let ?url = "chunk_url base ds (filename c)"
  let ?st2 = "st\<lparr>notifications := notifications st @ [ChunkEvent i n (bytesDownloaded st) T],
                 requests := requests st @ [?url]\<rparr>"
  have 1: "sorted (map bytes_of (notifications ?st2))"
    using Cons.prems(1,2) by (auto simp: sorted_append)
  have 2: "\<forall>p\<in>set (notifications ?st2). bytes_of p \<le> bytesDownloaded ?st2"
    using Cons.prems(2) by auto
  have 3: "filter terminal (notifications ?st2) = []"
    using Cons.prems(3) by simp
  show ?case
  proof (cases "aborted_at_check e i")
    case True
    with Cons.prems show ?thesis by simp
  next
    case False
    show ?thesis
    proof (cases "fetch e i ?url")
      case (FetchRejected err)
      with False 1 3 show ?thesis by (simp add: Let_def)
    next
      case (Response ok status body)
      show ?thesis
      proof (cases ok)
        case no: False
        with False Response 1 3 show ?thesis by (simp add: Let_def)
      next
        case yes: True
        obtain r st3 where rl: "read_loop i n T body [] ?st2 = (r, st3)"
          by (cases "read_loop i n T body [] ?st2")
        from read_loop_progress[OF 1 2 3, of i n T body "[]"] rl
        have i3: "sorted (map bytes_of (notifications st3))"
          "\<forall>p\<in>set (notifications st3). bytes_of p \<le> bytesDownloaded st3"
          "filter terminal (notifications st3) = []"
          by simp_all
        show ?thesis
        proof (cases r)
          case (Inl err)
          with False Response yes rl i3 show ?thesis by (simp add: Let_def)
        next
          case (Inr buffer)
          have f: "notifications (flush_buffer buffer st3) = notifications st3"
            "bytesDownloaded (flush_buffer buffer st3) = bytesDownloaded st3"
            by (simp_all add: flush_buffer_def)
          have step: "start_loop e base ds n T i (c # cs) st =
              start_loop e base ds n T (i + 1) cs (flush_buffer buffer st3)"
            using False Response yes rl Inr by (simp add: Let_def)
          show ?thesis
            unfolding step by (rule Cons.IH) (simp_all add: f i3)
        qed
      qed
    qed
  qed
qed

lemma start_loop_complete_event:
  "fst (start_loop e base ds n T i cs st) = Completed \<Longrightarrow>
   last (notifications (snd (start_loop e base ds n T i cs st))) =
     CompleteEvent (bytesDownloaded (snd (start_loop e base ds n T i cs st))) T"
proof (induction cs arbitrary: i st)
  case Nil
  show ?case by simp
next
  case (Cons c cs)
  then show ?case
    by (auto simp: Let_def split: if_splits fetch_result.splits prod.splits sum.splits)
qed


lemma streamDownload_notifications:
  "sorted (map bytes_of (notifications (snd (snd (streamDownload e d yyyymm monthData))))) \<and>
   length (filter terminal (notifications (snd (snd (streamDownload e d yyyymm monthData))))) \<le> 1 \<and>
   (fst (streamDownload e d yyyymm monthData) \<noteq> None \<longrightarrow>
      filter terminal (notifications (snd (snd (streamDownload e d yyyymm monthData)))) = [])"
proof (cases monthData)
  case (Entry md)
  let ?sl = "start_loop e (baseUrl d) (dataset d) (length (chunks md)) (total_size md) 0
               (chunks md) empty_stream"
  have p: "sorted (map bytes_of (notifications (snd ?sl))) \<and>
         filter terminal (notifications (snd ?sl)) =
           (if fst ?sl = Completed then [last (notifications (snd ?sl))] else [])"
    by (rule start_loop_progress) (simp_all add: empty_stream_def)
  obtain en st where sl: "?sl = (en, st)"
    by (cases ?sl)
  show ?thesis
    using p sl Entry by (cases en) (simp_all add: streamDownload_def)
next
  case Truthy
  then show ?thesis by (simp add: streamDownload_def empty_stream_def)
next
  case Falsy
  then show ?thesis by (simp add: streamDownload_def empty_stream_def)
qed


section \<open>Resolution in the shell script\<close>










section \<open>Evaluating the concrete months\<close>

lemmas js_eval = downloadMonth_def downloadMonth_enter_def downloadMonth_finally_def
  streamDownload_def month_property_def object_prototype_def ascii_read_def empty_stream_def
  flush_buffer_def chunk_url_def download_name_def Let_def

lemmas sh_eval = sh_run_def sh_resolve_def sh_fetch_month_def sh_download_def
  dataset_arg_def dataset_name_def requested_month_def manifest_url_def sh_chunk_url_def
  REPO_BASE_def
  is_month_format_def is_digit_def lower_char_def strip_nl_def
  echo_option_def echo_out_def wc_l_def
  grep_q_def echo_lines_def lines_of_def quoted_def sublist_code
  latest_of_def chunks_of_def captured_def match_kv_def words_of_def is_ifs_def
  curl_on_def Let_def

section \<open>Failed transfers\<close>

lemma browser_failure_saves_nothing:
  "thrown (downloadMonth e d yyyymm) \<noteq> None \<Longrightarrow> saved (downloadMonth e d yyyymm) = []"
  by (auto simp: downloadMonth_def streamDownload_def
           split: sum.splits prod.splits property.splits stream_end.splits)


section \<open>The claims\<close>

text \<open>
  C1. A row split across the boundary of two consecutive chunks is to come out as exactly
  one row. On the month of the specification's scenario (the first chunk ends with
  \<open>https://b.co\<close>, the second begins with \<open>m,1000\<close>) the browser downloader resolves and
  enqueues five lines, \<open>https://b.co\<close> and \<open>m,1000\<close> as two rows of their own: \<open>buffer\<close> is
  declared inside the chunk loop and flushed with a line feed after every chunk. The
  shell script, which appends the bytes of the chunks, writes the one row
  \<open>https://b.com,1000\<close> for the same month.
\<close>

theorem split_row_across_chunks_scenario:
  "thrown (downloadMonth split_env global_downloader ''202510'') = None \<and>
   enqueued (streamed (downloadMonth split_env global_downloader ''202510'')) =
     [''origin,rank'' @ [nl], ''https://a.com,1000'' @ [nl], ''https://b.co'' @ [nl],
      ''m,1000'' @ [nl], ''https://c.com,5000'' @ [nl]] \<and>
   files_after (sh_run (curl_on split_site) Map.empty (Some ''global'') (Some ''202510''))
       ''202510.csv'' =
     Some (''origin,rank'' @ [nl] @ ''https://a.com,1000'' @ [nl] @ ''https://b.com,1000'' @ [nl]
            @ ''https://c.com,5000'' @ [nl])"
proof (intro conjI)
  show "thrown (downloadMonth split_env global_downloader ''202510'') = None"
    by (simp add: js_eval split_env_def global_downloader_def month_202510_def chunk_b_def)
  show "enqueued (streamed (downloadMonth split_env global_downloader ''202510'')) =
     [''origin,rank'' @ [nl], ''https://a.com,1000'' @ [nl], ''https://b.co'' @ [nl],
      ''m,1000'' @ [nl], ''https://c.com,5000'' @ [nl]]"
    by (simp add: js_eval split_env_def global_downloader_def month_202510_def chunk_b_def)
  show "files_after (sh_run (curl_on split_site) Map.empty (Some ''global'') (Some ''202510''))
       ''202510.csv'' =
     Some (''origin,rank'' @ [nl] @ ''https://a.com,1000'' @ [nl] @ ''https://b.com,1000'' @ [nl]
            @ ''https://c.com,5000'' @ [nl])"
    by (simp add: sh_eval split_site_def manifest_text_def chunk_a_def chunk_b_def
        not_found_page_def)
qed


text \<open>
  C2. Merging the chunks of a month is to give the header line and then the content of
  the chunks of that month, in chunk order. The browser downloader takes the chunks from
  \<open>manifest.months[yyyymm].chunks\<close>. The shell script takes them from the text of the
  manifest, with \<open>grep -A 1000\<close> for the quoted month: the file names on the line that
  holds the month and on the 1000 lines after it, those of the months printed after it
  among them. On a dataset with the two months September and October, September printed
  first, the script asked for September fetches the chunk of September and the two
  chunks of October, writes them all to \<open>202509.csv\<close> and reports the download complete:
  the file holds a second header line and the rows of October. The browser downloader
  asked for the same month fetches and saves the chunk of September alone.
\<close>

theorem shell_merges_chunks_of_later_months:
  "exit (sh_run (curl_on two_month_site) Map.empty (Some ''global'') (Some ''202509''))
     = DownloadComplete \<and>
   fetched (sh_run (curl_on two_month_site) Map.empty (Some ''global'') (Some ''202509'')) =
     [manifest_url ''global'', sh_chunk_url ''global'' ''s.csv'',
      sh_chunk_url ''global'' ''a.csv'', sh_chunk_url ''global'' ''b.csv''] \<and>
   map_option lines_of
     (files_after (sh_run (curl_on two_month_site) Map.empty (Some ''global'') (Some ''202509''))
        ''202509.csv'') =
     Some [''origin,rank'', ''https://s.com,1000'',
           ''origin,rank'', ''https://a.com,1000'', ''https://b.com,1000'', ''https://c.com,5000''] \<and>
   thrown (downloadMonth two_month_env two_month_downloader ''202509'') = None \<and>
   requests (streamed (downloadMonth two_month_env two_month_downloader ''202509'')) =
     [''../data/global/s.csv''] \<and>
   saved (downloadMonth two_month_env two_month_downloader ''202509'') =
     [(''crux_global_202509.csv'', ''origin,rank'' @ [nl] @ ''https://s.com,1000'' @ [nl])]"
proof -
  have run: "sh_run (curl_on two_month_site) Map.empty (Some ''global'') (Some ''202509'') =
     \<lparr>exit = DownloadComplete,
      files_after = [''202509.csv'' \<mapsto> chunk_s @ chunk_a' @ chunk_b'],
      fetched = [manifest_url ''global'', sh_chunk_url ''global'' ''s.csv'',
                 sh_chunk_url ''global'' ''a.csv'', sh_chunk_url ''global'' ''b.csv'']\<rparr>"
    by (simp add: sh_eval two_month_site_def two_month_manifest_text_def not_found_page_def)
  have ls: "lines_of (chunk_s @ chunk_a' @ chunk_b') =
     [''origin,rank'', ''https://s.com,1000'',
      ''origin,rank'', ''https://a.com,1000'', ''https://b.com,1000'', ''https://c.com,5000'']"
    by (simp add: lines_of_def chunk_s_def chunk_a'_def chunk_b'_def)
  have js: "downloadMonth two_month_env two_month_downloader ''202509'' =
     \<lparr>thrown = None, after = two_month_downloader,
      saved = [(''crux_global_202509.csv'', ''origin,rank'' @ [nl] @ ''https://s.com,1000'' @ [nl])],
      streamed = \<lparr>bytesDownloaded = 31,
        enqueued = [''origin,rank'' @ [nl], ''https://s.com,1000'' @ [nl]],
        notifications = [ChunkEvent 0 1 0 31, ProgressEvent 0 1 31 31, CompleteEvent 31 31],
        requests = [''../data/global/s.csv'']\<rparr>\<rparr>"
    by (simp add: js_eval two_month_env_def two_month_downloader_def month_202509_def chunk_s_def)
  show ?thesis
    by (simp add: run ls js)
qed

text \<open>
  C3. A dataset that the dataset list does not name is to be reported as not found, and a
  month that the manifest does not hold as a month not found, before any chunk is
  fetched. The shell script has the branch for the dataset (lines 58 to 63), but its
  \<open>curl -sSL\<close> has no \<open>--fail\<close>: for the dataset \<open>zz\<close>, which the site neither lists nor
  has, the server answers the request for the manifest with status 404 and a page,
  \<open>curl\<close> exits with status 0 and the page is taken for the manifest. Asked for the month
  202510 the script reports that the month is not in the dataset, asked for no month
  that the dataset has no data. Only the manifest is requested and nothing is written.
  In the browser downloader a month that \<open>months\<close> does not hold but inherits from
  \<open>Object.prototype\<close>, such as \<open>constructor\<close>, passes the test of \<open>monthData\<close>: the call
  ends with the \<open>TypeError\<close> of \<open>chunks.length\<close>, not with the error of the missing month.
\<close>

theorem unknown_dataset_is_reported_as_missing_month:
  "''zz'' \<notin> set (dataset_ids split_site) \<and>
   serve split_site (manifest_url ''zz'') = Http 404 ''404: Not Found'' \<and>
   sh_run (curl_on split_site) Map.empty (Some ''zz'') (Some ''202510'') =
     \<lparr>exit = MonthMissing, files_after = Map.empty, fetched = [manifest_url ''zz'']\<rparr> \<and>
   sh_run (curl_on split_site) Map.empty (Some ''zz'') None =
     \<lparr>exit = NoDataAvailable, files_after = Map.empty, fetched = [manifest_url ''zz'']\<rparr> \<and>
   map_option (\<lambda>m. months m ''constructor'') (manifest global_downloader) = Some None \<and>
   thrown (downloadMonth split_env global_downloader ''constructor'') = Some ChunksUndefined \<and>
   requests (streamed (downloadMonth split_env global_downloader ''constructor'')) = []"
proof -
  have listed: "''zz'' \<notin> set (dataset_ids split_site)"
    by (simp add: split_site_def)
  have page: "serve split_site (manifest_url ''zz'') = Http 404 ''404: Not Found''"
    by (simp add: split_site_def manifest_url_def sh_chunk_url_def REPO_BASE_def not_found_page_def)
  have month: "sh_run (curl_on split_site) Map.empty (Some ''zz'') (Some ''202510'') =
     \<lparr>exit = MonthMissing, files_after = Map.empty, fetched = [manifest_url ''zz'']\<rparr>"
    by (simp add: sh_eval split_site_def manifest_text_def not_found_page_def)
  have latest: "sh_run (curl_on split_site) Map.empty (Some ''zz'') None =
     \<lparr>exit = NoDataAvailable, files_after = Map.empty, fetched = [manifest_url ''zz'']\<rparr>"
    by (simp add: sh_eval split_site_def manifest_text_def not_found_page_def)
  have js: "downloadMonth split_env global_downloader ''constructor'' =
     \<lparr>thrown = Some ChunksUndefined, after = global_downloader, saved = [],
      streamed = empty_stream\<rparr>"
    by (simp add: js_eval global_downloader_def)
  show ?thesis
    by (simp add: listed page month latest js empty_stream_def) (simp add: global_downloader_def)
qed


text \<open>
  C4. A chunk fetch that returns a non-success HTTP status, or that fails below HTTP,
  is to fail the download at once, with no partial output left as a finished file. The
  browser downloader does so (status 404 on the second chunk: the promise rejects with
  the status error of chunk 2, nothing is saved). The shell script calls \<open>curl -sSL\<close>
  without \<open>--fail\<close>, which exits with status 0 on a 404 and prints the error page: the
  script appends the page to the merged file, reports the download complete and exits
  with status 0.
\<close>

theorem missing_chunk_is_success_in_shell:
  "exit (sh_run (curl_on missing_chunk_site) Map.empty (Some ''global'') (Some ''202510''))
     = DownloadComplete \<and>
   exit_status (exit (sh_run (curl_on missing_chunk_site) Map.empty (Some ''global'')
     (Some ''202510''))) = 0 \<and>
   files_after (sh_run (curl_on missing_chunk_site) Map.empty (Some ''global'') (Some ''202510''))
       ''202510.csv'' =
     Some (''origin,rank'' @ [nl] @ ''https://a.com,1000'' @ [nl] @ ''404: Not Found'') \<and>
   thrown (downloadMonth missing_chunk_env global_downloader ''202510'') = Some (ChunkStatus 2 404) \<and>
   saved (downloadMonth missing_chunk_env global_downloader ''202510'') = []"
proof -
  have ex: "exit (sh_run (curl_on missing_chunk_site) Map.empty (Some ''global'') (Some ''202510''))
     = DownloadComplete"
    by (simp add: sh_eval missing_chunk_site_def manifest_text_def chunk_a'_def not_found_page_def)
  have written: "files_after (sh_run (curl_on missing_chunk_site) Map.empty (Some ''global'')
       (Some ''202510'')) ''202510.csv'' =
     Some (''origin,rank'' @ [nl] @ ''https://a.com,1000'' @ [nl] @ ''404: Not Found'')"
    by (simp add: sh_eval missing_chunk_site_def manifest_text_def chunk_a'_def not_found_page_def)
  have js: "thrown (downloadMonth missing_chunk_env global_downloader ''202510'') =
      Some (ChunkStatus 2 404)"
    by (simp add: js_eval missing_chunk_env_def global_downloader_def month_202510_def chunk_a'_def)
  have none: "saved (downloadMonth missing_chunk_env global_downloader ''202510'') = []"
    by (rule browser_failure_saves_nothing) (simp add: js)
  show ?thesis
    using ex written js none by simp
qed

text \<open>
  C5. Once a cancellation is observed the download is to fail with a cancellation
  error, and no file that stands for a complete download is to appear. When the signal
  is aborted during a read, the code does so (the promise rejects with the
  \<open>AbortError\<close>, nothing is saved, the page shows the download as cancelled). When the
  loop finds the signal aborted before the second chunk, it closes the stream and
  returns: the promise resolves, the blob with the first chunk alone is saved under the
  name of the full month, no notification reports the end, and the page shows the
  download as complete. In neither case is a chunk requested after the cancellation is
  observed.
\<close>

theorem cancel_between_chunks_saves_partial_file:
  "thrown (downloadMonth cancel_env global_downloader ''202510'') = None \<and>
   saved (downloadMonth cancel_env global_downloader ''202510'') =
     [(''crux_global_202510.csv'', ''origin,rank'' @ [nl] @ ''https://a.com,1000'' @ [nl])] \<and>
   requests (streamed (downloadMonth cancel_env global_downloader ''202510'')) =
     [''../data/global/a.csv''] \<and>
   filter terminal (notifications (streamed (downloadMonth cancel_env global_downloader ''202510'')))
     = [] \<and>
   map_option fst (startDownload cancel_env global_downloader) = Some DownloadCompleteText \<and>
   thrown (downloadMonth abort_env global_downloader ''202510'') = Some (Transfer AbortError) \<and>
   saved (downloadMonth abort_env global_downloader ''202510'') = [] \<and>
   map_option fst (startDownload abort_env global_downloader) = Some DownloadCancelledText"
proof -
  have r: "thrown (downloadMonth cancel_env global_downloader ''202510'') = None"
    by (simp add: js_eval cancel_env_def aligned_env_def global_downloader_def month_202510_def
        chunk_a'_def)
  have s: "saved (downloadMonth cancel_env global_downloader ''202510'') =
     [(''crux_global_202510.csv'', ''origin,rank'' @ [nl] @ ''https://a.com,1000'' @ [nl])]"
    by (simp add: js_eval cancel_env_def aligned_env_def global_downloader_def month_202510_def
        chunk_a'_def)
  have q: "requests (streamed (downloadMonth cancel_env global_downloader ''202510'')) =
     [''../data/global/a.csv'']"
    by (simp add: js_eval cancel_env_def aligned_env_def global_downloader_def month_202510_def
        chunk_a'_def)
  have n: "filter terminal
      (notifications (streamed (downloadMonth cancel_env global_downloader ''202510''))) = []"
    by (simp add: js_eval cancel_env_def aligned_env_def global_downloader_def month_202510_def
        chunk_a'_def)
  have u: "map_option fst (startDownload cancel_env global_downloader) = Some DownloadCompleteText"
    using r by (simp add: startDownload_def global_downloader_def Let_def)
  have a: "thrown (downloadMonth abort_env global_downloader ''202510'') = Some (Transfer AbortError)"
    by (simp add: js_eval abort_env_def global_downloader_def month_202510_def chunk_a'_def)
  have b: "saved (downloadMonth abort_env global_downloader ''202510'') = []"
    by (rule browser_failure_saves_nothing) (simp add: a)
  have v: "map_option fst (startDownload abort_env global_downloader) = Some DownloadCancelledText"
    using a by (simp add: startDownload_def global_downloader_def Let_def handleDownloadError_def)
  show ?thesis
    using r s q n u a b v by simp
qed




text \<open>
  C7. The \<open>bytesDownloaded\<close> of successive notifications never decreases, and one terminal
  notification, \<open>complete\<close> or \<open>failed\<close>, is to end every download, also a failed or an
  aborted one. The code has no \<open>failed\<close> notification: when the connection is lost on
  the second chunk, the promise rejects and the notifications are the two of the first
  chunk and the \<open>chunk\<close> notification of the second, none of them terminal.
\<close>

theorem no_terminal_notification_on_failure:
  "thrown (downloadMonth failing_env global_downloader ''202510'') = Some (Transfer NetworkFailure) \<and>
   notifications (streamed (downloadMonth failing_env global_downloader ''202510'')) =
     [ChunkEvent 0 2 0 69, ProgressEvent 0 2 31 69, ChunkEvent 1 2 31 69] \<and>
   filter terminal (notifications (streamed (downloadMonth failing_env global_downloader ''202510'')))
     = []"
  by (simp add: js_eval failing_env_def global_downloader_def month_202510_def chunk_a'_def)

text \<open>
  C7, as the code has it. For every call of \<open>downloadMonth\<close>: the \<open>bytesDownloaded\<close> of the
  notifications are in non-decreasing order; at most one notification is terminal; when
  the promise rejects, none is; when every chunk is delivered, the promise resolves and
  the last notification is the only terminal one, \<open>complete\<close> with the number of bytes of
  all chunks.
\<close>

theorem progress_notifications:
  "sorted (map bytes_of (notifications (streamed (downloadMonth e d yyyymm)))) \<and>
   length (filter terminal (notifications (streamed (downloadMonth e d yyyymm)))) \<le> 1 \<and>
   (thrown (downloadMonth e d yyyymm) \<noteq> None \<longrightarrow>
      filter terminal (notifications (streamed (downloadMonth e d yyyymm))) = []) \<and>
   (\<not> isDownloading d \<and> manifest d = Some mf \<and> month_property mf yyyymm = Entry md \<and>
    delivers e (baseUrl d) (dataset d) 0 (chunks md) vss \<longrightarrow>
      thrown (downloadMonth e d yyyymm) = None \<and>
      filter terminal (notifications (streamed (downloadMonth e d yyyymm))) =
        [CompleteEvent (length (concat (concat vss))) (total_size md)] \<and>
      last (notifications (streamed (downloadMonth e d yyyymm))) =
        CompleteEvent (length (concat (concat vss))) (total_size md))"
proof -
  have early: "sorted (map bytes_of (notifications empty_stream)) \<and>
      filter terminal (notifications empty_stream) = []"
    by (simp add: empty_stream_def)
  have general: "sorted (map bytes_of (notifications (streamed (downloadMonth e d yyyymm)))) \<and>
   length (filter terminal (notifications (streamed (downloadMonth e d yyyymm)))) \<le> 1 \<and>
   (thrown (downloadMonth e d yyyymm) \<noteq> None \<longrightarrow>
      filter terminal (notifications (streamed (downloadMonth e d yyyymm))) = [])"
  proof (cases "downloadMonth_enter d yyyymm")
    case (Inl err)
    then show ?thesis using early by (simp add: downloadMonth_def)
  next
    case (Inr p)
    obtain d1 monthData where p: "p = (d1, monthData)"
      by (cases p)
    obtain err files st where sd: "streamDownload e d1 yyyymm monthData = (err, files, st)"
      by (cases "streamDownload e d1 yyyymm monthData")
    from streamDownload_notifications[of e d1 yyyymm monthData] sd
    have "sorted (map bytes_of (notifications st)) \<and>
          length (filter terminal (notifications st)) \<le> 1 \<and>
          (err \<noteq> None \<longrightarrow> filter terminal (notifications st) = [])"
      by simp
    then show ?thesis
      using Inr p sd by (simp add: downloadMonth_def)
  qed
  have delivered: "thrown (downloadMonth e d yyyymm) = None \<and>
      filter terminal (notifications (streamed (downloadMonth e d yyyymm))) =
        [CompleteEvent (length (concat (concat vss))) (total_size md)] \<and>
      last (notifications (streamed (downloadMonth e d yyyymm))) =
        CompleteEvent (length (concat (concat vss))) (total_size md)"
    if h: "\<not> isDownloading d \<and> manifest d = Some mf \<and> month_property mf yyyymm = Entry md \<and>
           delivers e (baseUrl d) (dataset d) 0 (chunks md) vss"
  proof -
    let ?sl = "start_loop e (baseUrl d) (dataset d) (length (chunks md)) (total_size md) 0
                 (chunks md) empty_stream"
    let ?d1 = "d\<lparr>isDownloading := True, abortController := Some False\<rparr>"
    from h have dl: "delivers e (baseUrl d) (dataset d) 0 (chunks md) vss"
      by simp
    from start_loop_delivers[OF dl, of "length (chunks md)" "total_size md" empty_stream]
    have en: "fst ?sl = Completed"
      and bytes: "bytesDownloaded (snd ?sl) = length (concat (concat vss))"
      by (simp_all add: empty_stream_def)
    have last_ev: "last (notifications (snd ?sl)) =
        CompleteEvent (length (concat (concat vss))) (total_size md)"
      using start_loop_complete_event[OF en] bytes by simp
    have "sorted (map bytes_of (notifications (snd ?sl))) \<and>
         filter terminal (notifications (snd ?sl)) =
           (if fst ?sl = Completed then [last (notifications (snd ?sl))] else [])"
      by (rule start_loop_progress) (simp_all add: empty_stream_def)
    with en last_ev have only: "filter terminal (notifications (snd ?sl)) =
        [CompleteEvent (length (concat (concat vss))) (total_size md)]"
      by simp
    obtain st where sl: "?sl = (Completed, st)"
      using en by (cases ?sl) simp
    have enter: "downloadMonth_enter d yyyymm = Inr (?d1, Entry md)"
      using h by (simp add: downloadMonth_enter_def)
    have dm: "downloadMonth e d yyyymm =
      \<lparr>thrown = None, after = downloadMonth_finally ?d1,
       saved = [(download_name (dataset d) yyyymm, concat (enqueued st))], streamed = st\<rparr>"
      using sl by (simp add: downloadMonth_def enter streamDownload_def)
    show ?thesis
      using only last_ev sl by (simp add: dm)
  qed
  show ?thesis
    using general delivered by blast
qed

theorem progress_notifications_witness:
  "thrown (downloadMonth failing_env global_downloader ''202510'') \<noteq> None \<and>
   \<not> isDownloading global_downloader \<and>
   delivers aligned_env ''../'' ''global'' 0 (chunks month_202510) [[chunk_a'], [chunk_b']] \<and>
   map bytes_of (notifications (streamed (downloadMonth aligned_env global_downloader ''202510'')))
     = [0, 31, 31, 69, 69] \<and>
   sorted (map bytes_of
     (notifications (streamed (downloadMonth aligned_env global_downloader ''202510'')))) \<and>
   filter terminal (notifications (streamed (downloadMonth failing_env global_downloader ''202510'')))
     = [] \<and>
   filter terminal (notifications (streamed (downloadMonth aligned_env global_downloader ''202510'')))
     = [CompleteEvent 69 69]"
proof -
  have failed: "thrown (downloadMonth failing_env global_downloader ''202510'') \<noteq> None"
    by (simp add: js_eval failing_env_def global_downloader_def month_202510_def chunk_a'_def)
  have dl: "delivers aligned_env ''../'' ''global'' 0 (chunks month_202510) [[chunk_a'], [chunk_b']]"
    by (simp add: aligned_env_def month_202510_def chunk_url_def ascii_read_def)
  have h: "\<not> isDownloading global_downloader \<and>
      manifest global_downloader =
        Some \<lparr>summary = Some \<lparr>latest_month = ''202510''\<rparr>,
              months = [''202510'' \<mapsto> Entry month_202510]\<rparr> \<and>
      month_property \<lparr>summary = Some \<lparr>latest_month = ''202510''\<rparr>,
                      months = [''202510'' \<mapsto> Entry month_202510]\<rparr>
        ''202510'' = Entry month_202510 \<and>
      delivers aligned_env (baseUrl global_downloader) (dataset global_downloader) 0
        (chunks month_202510) [[chunk_a'], [chunk_b']]"
    using dl by (simp add: global_downloader_def month_property_def)
  have bytes: "map bytes_of
      (notifications (streamed (downloadMonth aligned_env global_downloader ''202510'')))
     = [0, 31, 31, 69, 69]"
    by (simp add: js_eval aligned_env_def global_downloader_def month_202510_def chunk_a'_def
        chunk_b'_def)
  note none = progress_notifications[of failing_env global_downloader "''202510''",
      THEN conjunct2, THEN conjunct2, THEN conjunct1, THEN mp, OF failed]
  note one = progress_notifications[of aligned_env global_downloader "''202510''" _ month_202510
      "[[chunk_a'], [chunk_b']]",
      THEN conjunct2, THEN conjunct2, THEN conjunct2, THEN mp, OF h, THEN conjunct2, THEN conjunct1]
  note mono = progress_notifications[of aligned_env global_downloader "''202510''", THEN conjunct1]
  show ?thesis
    using failed h dl bytes none one mono
    by (simp add: chunk_a'_def chunk_b'_def month_202510_def)
qed

text \<open>
  C8. The shell script is to write \<open><YYYYMM>.csv\<close> and exit with status 0 on success, and
  to print an error message and exit with a non-zero status on every failure of the
  resolution or of a fetch. When the manifest cannot be fetched because the host cannot
  be reached, \<open>curl\<close> exits with status 6 inside \<open>MANIFEST=$(...)\<close>; under \<open>set -e\<close> the script
  ends there with status 6, before the test of \<open>$?\<close> that would print the message.
\<close>

theorem unreachable_manifest_exits_silently:
  "exit (sh_run (curl_on unreachable_site) Map.empty (Some ''global'') None) = Errexit 6 \<and>
   exit_status (exit (sh_run (curl_on unreachable_site) Map.empty (Some ''global'') None)) = 6 \<and>
   \<not> diagnostic (exit (sh_run (curl_on unreachable_site) Map.empty (Some ''global'') None)) \<and>
   files_after (sh_run (curl_on unreachable_site) Map.empty (Some ''global'') None) ''202510.csv''
     = None"
  by (simp add: sh_eval unreachable_site_def)

text \<open>
  C9. Once the shell script has resolved month \<open>m\<close> and its chunk files, a file \<open>m.csv\<close>
  already in the working directory is removed before the first chunk is fetched: the
  chunk loop starts on the directory without it, in the part of the script after the
  resolution and in the whole script (when it does not end before, at line 98, for want
  of chunks). If the loop then fails, the result is that directory, with no \<open>m.csv\<close> and
  every other file as it was. If the loop succeeds, \<open>m.csv\<close> holds the new chunks only.
\<close>

theorem stale_output_removed_and_not_restored:
  "sh_download c ds m fnames dir urls =
     chunk_loop c ds (m @ ''.csv'') fnames (dir(m @ ''.csv'' := None)) urls \<and>
   (exit (sh_download c ds m fnames dir urls) \<noteq> DownloadComplete \<longrightarrow>
      files_after (sh_download c ds m fnames dir urls) = dir(m @ ''.csv'' := None)) \<and>
   (exit (sh_download c ds m fnames dir urls) = DownloadComplete \<and> fnames \<noteq> [] \<longrightarrow>
      files_after (sh_download c ds m fnames dir urls) =
        dir(m @ ''.csv'' \<mapsto> concat (bodies c ds fnames))) \<and>
   (sh_resolve c arg1 arg2 = Inr (ds, man, m, urls) \<and>
    exit (sh_run c dir arg1 arg2) \<noteq> NoChunksFound \<longrightarrow>
      sh_run c dir arg1 arg2 =
        chunk_loop c ds (m @ ''.csv'') (words_of (chunks_of man m)) (dir(m @ ''.csv'' := None)) urls) \<and>
   (sh_resolve c arg1 arg2 = Inr (ds, man, m, urls) \<and>
    exit (sh_run c dir arg1 arg2) = ChunkDownloadFailed f \<longrightarrow>
      files_after (sh_run c dir arg1 arg2) = dir(m @ ''.csv'' := None))"
proof (intro conjI impI)
  show loop: "sh_download c ds m fnames dir urls =
     chunk_loop c ds (m @ ''.csv'') fnames (dir(m @ ''.csv'' := None)) urls"
    by (rule sh_download_loop)
  show "files_after (sh_download c ds m fnames dir urls) = dir(m @ ''.csv'' := None)"
    if "exit (sh_download c ds m fnames dir urls) \<noteq> DownloadComplete"
    using that chunk_loop_failed[of c ds "m @ ''.csv''" fnames "dir(m @ ''.csv'' := None)" urls]
    by (simp add: loop)
  show "files_after (sh_download c ds m fnames dir urls) =
        dir(m @ ''.csv'' \<mapsto> concat (bodies c ds fnames))"
    if h: "exit (sh_download c ds m fnames dir urls) = DownloadComplete \<and> fnames \<noteq> []"
  proof -
    from h have "all_ok c ds fnames"
      unfolding loop by (auto dest: chunk_loop_complete)
    with h show ?thesis
      by (simp add: sh_download_all_ok)
  qed
  show "sh_run c dir arg1 arg2 =
        chunk_loop c ds (m @ ''.csv'') (words_of (chunks_of man m)) (dir(m @ ''.csv'' := None)) urls"
    if h: "sh_resolve c arg1 arg2 = Inr (ds, man, m, urls) \<and>
           exit (sh_run c dir arg1 arg2) \<noteq> NoChunksFound"
  proof -
    from h have run: "sh_run c dir arg1 arg2 = sh_fetch_month c ds man m dir urls"
      by (simp add: sh_run_def)
    with h have "exit (sh_fetch_month c ds man m dir urls) \<noteq> NoChunksFound"
      by simp
    then show ?thesis
      unfolding run by (rule sh_fetch_month_loop)
  qed
  show "files_after (sh_run c dir arg1 arg2) = dir(m @ ''.csv'' := None)"
    if h: "sh_resolve c arg1 arg2 = Inr (ds, man, m, urls) \<and>
           exit (sh_run c dir arg1 arg2) = ChunkDownloadFailed f"
  proof -
    from h have run: "sh_run c dir arg1 arg2 = sh_fetch_month c ds man m dir urls"
      by (simp add: sh_run_def)
    with h have ex: "exit (sh_fetch_month c ds man m dir urls) = ChunkDownloadFailed f"
      by simp
    then have dl: "sh_fetch_month c ds man m dir urls =
        sh_download c ds m (words_of (chunks_of man m)) dir urls"
      by (auto simp: sh_fetch_month_def Let_def split: if_splits)
    with ex have "exit (sh_download c ds m (words_of (chunks_of man m)) dir urls) \<noteq> DownloadComplete"
      by simp
    then have "files_after (sh_download c ds m (words_of (chunks_of man m)) dir urls) =
        dir(m @ ''.csv'' := None)"
      using chunk_loop_failed[of c ds "m @ ''.csv''" _ "dir(m @ ''.csv'' := None)" urls]
      by (simp add: sh_download_loop)
    then show ?thesis
      by (simp add: run dl)
  qed
qed

theorem stale_output_removed_and_not_restored_witness:
  "old_dir ''202510.csv'' \<noteq> None \<and>
   sh_resolve (curl_on broken_site) (Some ''global'') None =
     Inr (''global'', manifest_text, ''202510'', [manifest_url ''global'']) \<and>
   exit (sh_run (curl_on broken_site) old_dir (Some ''global'') None) \<noteq> NoChunksFound \<and>
   sh_run (curl_on broken_site) old_dir (Some ''global'') None =
     chunk_loop (curl_on broken_site) ''global'' ''202510.csv'' [''a.csv'', ''b.csv'']
       (old_dir(''202510.csv'' := None)) [manifest_url ''global''] \<and>
   exit (sh_run (curl_on broken_site) old_dir (Some ''global'') None) = ChunkDownloadFailed ''b.csv'' \<and>
   exit (sh_download (curl_on broken_site) ''global'' ''202510'' [''a.csv'', ''b.csv''] old_dir [])
     \<noteq> DownloadComplete \<and>
   files_after (sh_run (curl_on broken_site) old_dir (Some ''global'') None) ''202510.csv'' = None \<and>
   files_after (sh_download (curl_on broken_site) ''global'' ''202510'' [''a.csv'', ''b.csv'']
       old_dir []) ''202510.csv'' = None \<and>
   exit (sh_download (curl_on aligned_site) ''global'' ''202510'' [''a.csv'', ''b.csv''] old_dir [])
     = DownloadComplete \<and>
   files_after (sh_download (curl_on aligned_site) ''global'' ''202510'' [''a.csv'', ''b.csv'']
       old_dir []) ''202510.csv'' = Some (chunk_a' @ chunk_b')"
proof -
  have old: "old_dir ''202510.csv'' \<noteq> None"
    by (simp add: old_dir_def)
  have res: "sh_resolve (curl_on broken_site) (Some ''global'') None =
     Inr (''global'', manifest_text, ''202510'', [manifest_url ''global''])"
    by (simp add: sh_eval broken_site_def manifest_text_def)
  have ch: "chunks_of manifest_text ''202510'' = ''a.csv'' @ [nl] @ ''b.csv''"
    by (simp add: sh_eval manifest_text_def)
  have ws: "words_of (chunks_of manifest_text ''202510'') = [''a.csv'', ''b.csv'']"
    by (simp add: ch words_of_def is_ifs_def)
  have run: "exit (sh_run (curl_on broken_site) old_dir (Some ''global'') None) =
      ChunkDownloadFailed ''b.csv''"
    by (simp add: sh_eval broken_site_def manifest_text_def chunk_a'_def old_dir_def)
  have dl: "exit (sh_download (curl_on broken_site) ''global'' ''202510'' [''a.csv'', ''b.csv'']
      old_dir []) \<noteq> DownloadComplete"
    by (simp add: sh_eval broken_site_def manifest_text_def chunk_a'_def old_dir_def)
  have ok: "exit (sh_download (curl_on aligned_site) ''global'' ''202510'' [''a.csv'', ''b.csv'']
      old_dir []) = DownloadComplete \<and> [''a.csv'', ''b.csv''] \<noteq> []"
    by (simp add: sh_eval aligned_site_def manifest_text_def chunk_a'_def chunk_b'_def old_dir_def)
  have bd: "concat (bodies (curl_on aligned_site) ''global'' [''a.csv'', ''b.csv'']) =
      chunk_a' @ chunk_b'"
    by (simp add: bodies_def sh_eval aligned_site_def)
  note broken = stale_output_removed_and_not_restored[of "curl_on broken_site" "''global''"
      "''202510''" "[''a.csv'', ''b.csv'']" old_dir "[]" "Some ''global''" None manifest_text
      "''b.csv''"]
  note whole = stale_output_removed_and_not_restored[of "curl_on broken_site" "''global''"
      "''202510''" _ old_dir "[manifest_url ''global'']" "Some ''global''" None manifest_text
      "''b.csv''"]
  note fine = stale_output_removed_and_not_restored[of "curl_on aligned_site" "''global''"
      "''202510''" "[''a.csv'', ''b.csv'']" old_dir "[]"]
  have a: "files_after (sh_download (curl_on broken_site) ''global'' ''202510''
       [''a.csv'', ''b.csv''] old_dir []) = old_dir(''202510'' @ ''.csv'' := None)"
    using broken dl by blast
  have b: "files_after (sh_download (curl_on aligned_site) ''global'' ''202510''
       [''a.csv'', ''b.csv''] old_dir []) =
       old_dir(''202510'' @ ''.csv'' \<mapsto> concat (bodies (curl_on aligned_site) ''global''
          [''a.csv'', ''b.csv'']))"
    using fine ok by blast
  have c: "files_after (sh_run (curl_on broken_site) old_dir (Some ''global'') None) =
       old_dir(''202510'' @ ''.csv'' := None)"
    using whole res run by blast
  have ne: "exit (sh_run (curl_on broken_site) old_dir (Some ''global'') None) \<noteq> NoChunksFound"
    by (simp add: run)
  have d: "sh_run (curl_on broken_site) old_dir (Some ''global'') None =
       chunk_loop (curl_on broken_site) ''global'' (''202510'' @ ''.csv'')
         (words_of (chunks_of manifest_text ''202510'')) (old_dir(''202510'' @ ''.csv'' := None))
         [manifest_url ''global'']"
    using whole res ne by blast
  show ?thesis
    using old res ne run dl ok a b c d by (simp add: bd ws)
qed

text \<open>
  C10. At most one download runs on a downloader, and the downloader can be used again
  after every download. Take a downloader as its constructor leaves it and let the page
  do anything with it, in any order: call \<open>downloadMonth\<close>, call \<open>cancelDownload\<close>, have a
  pending download settle. Then at every moment at most one call of \<open>downloadMonth\<close> is
  between its start and its \<open>finally\<close> block, and \<open>isDownloading\<close> is set and
  \<open>abortController\<close> is not \<open>null\<close> exactly while one is. While one is, a further call of
  \<open>downloadMonth\<close> rejects with "Download already in progress", fetches nothing and
  leaves the downloader as it is, flag and controller of the running download included;
  and when the running download settles, resolved or rejected, the downloader is again
  as the constructor left it. Whenever no download is pending the downloader is as the
  constructor left it. A call that passes the tests raises the flag and makes a fresh
  controller; and a call awaited to its end leaves the downloader as it found it,
  whatever the network did.
\<close>

theorem one_download_per_instance:
  "constructed d \<Longrightarrow>
   pending (life d acts) \<le> 1 \<and>
   (isDownloading (this (life d acts)) \<longleftrightarrow> pending (life d acts) = 1) \<and>
   (abortController (this (life d acts)) \<noteq> None \<longleftrightarrow> pending (life d acts) = 1) \<and>
   (pending (life d acts) = 1 \<longrightarrow>
      thrown (downloadMonth e (this (life d acts)) yyyymm) = Some DownloadInProgress \<and>
      requests (streamed (downloadMonth e (this (life d acts)) yyyymm)) = [] \<and>
      after (downloadMonth e (this (life d acts)) yyyymm) = this (life d acts) \<and>
      life d (acts @ [CallDownloadMonth yyyymm]) = life d acts \<and>
      life d (acts @ [StreamSettles]) = \<lparr>this = d, pending = 0\<rparr>) \<and>
   (pending (life d acts) = 0 \<longrightarrow> this (life d acts) = d) \<and>
   (downloadMonth_enter d yyyymm = Inr (d1, monthData) \<longrightarrow>
      isDownloading d1 \<and> abortController d1 = Some False \<and>
      life d [CallDownloadMonth yyyymm] = \<lparr>this = d1, pending = 1\<rparr>) \<and>
   after (downloadMonth e d yyyymm) = d"
proof -
  assume c: "constructed d"
  let ?s = "life d acts"
  from life_invariant[OF c, of acts] consider
      (idle) "pending ?s = 0" "this ?s = d"
    | (busy) "pending ?s = 1" "isDownloading (this ?s)" "abortController (this ?s) \<noteq> None"
        "downloadMonth_finally (this ?s) = d"
    by auto
  then have state: "pending ?s \<le> 1 \<and>
     (isDownloading (this ?s) \<longleftrightarrow> pending ?s = 1) \<and>
     (abortController (this ?s) \<noteq> None \<longleftrightarrow> pending ?s = 1) \<and>
     (pending ?s = 0 \<longrightarrow> this ?s = d) \<and>
     (pending ?s = 1 \<longrightarrow> isDownloading (this ?s) \<and> downloadMonth_finally (this ?s) = d)"
  proof cases
    case idle
    with c show ?thesis by (simp add: constructed_def)
  next
    case busy
    then show ?thesis by simp
  qed
  have second: "thrown (downloadMonth e (this ?s) yyyymm) = Some DownloadInProgress \<and>
      requests (streamed (downloadMonth e (this ?s) yyyymm)) = [] \<and>
      after (downloadMonth e (this ?s) yyyymm) = this ?s \<and>
      life d (acts @ [CallDownloadMonth yyyymm]) = ?s \<and>
      life d (acts @ [StreamSettles]) = \<lparr>this = d, pending = 0\<rparr>"
    if p: "pending ?s = 1"
  proof -
    from state p have up: "isDownloading (this ?s)" and fin: "downloadMonth_finally (this ?s) = d"
      by simp_all
    from up have rej: "downloadMonth_enter (this ?s) yyyymm = Inl DownloadInProgress"
      by (simp add: downloadMonth_enter_def)
    show ?thesis
      using p fin by (simp add: downloadMonth_def rej life_snoc empty_stream_def)
  qed
  have first: "isDownloading d1 \<and> abortController d1 = Some False \<and>
      life d [CallDownloadMonth yyyymm] = \<lparr>this = d1, pending = 1\<rparr>"
    if en: "downloadMonth_enter d yyyymm = Inr (d1, monthData)"
    using constructed_finally_enter[OF c en] en by (simp add: life_def)
  have awaited: "after (downloadMonth e d yyyymm) = d"
  proof (cases "downloadMonth_enter d yyyymm")
    case (Inl err)
    then show ?thesis by (simp add: downloadMonth_def)
  next
    case (Inr p)
    obtain d2 p2 where p: "p = (d2, p2)"
      by (cases p)
    from constructed_finally_enter[OF c Inr[unfolded p]] have "downloadMonth_finally d2 = d"
      by simp
    then show ?thesis
      using Inr p by (simp add: downloadMonth_def split: prod.splits)
  qed
  show ?thesis
    using state second first awaited by blast
qed

theorem one_download_per_instance_witness:
  "constructed global_downloader \<and>
   life global_downloader [CallDownloadMonth ''202510''] =
     \<lparr>this = global_downloader\<lparr>isDownloading := True, abortController := Some False\<rparr>,
      pending = 1\<rparr> \<and>
   life global_downloader [CallDownloadMonth ''202510'', CallCancelDownload] =
     \<lparr>this = global_downloader\<lparr>isDownloading := True, abortController := Some True\<rparr>,
      pending = 1\<rparr> \<and>
   thrown (downloadMonth split_env
       (global_downloader\<lparr>isDownloading := True, abortController := Some True\<rparr>) ''202510'')
     = Some DownloadInProgress \<and>
   requests (streamed (downloadMonth split_env
       (global_downloader\<lparr>isDownloading := True, abortController := Some True\<rparr>) ''202510''))
     = [] \<and>
   life global_downloader
       [CallDownloadMonth ''202510'', CallCancelDownload, CallDownloadMonth ''202510''] =
     life global_downloader [CallDownloadMonth ''202510'', CallCancelDownload] \<and>
   life global_downloader [CallDownloadMonth ''202510'', CallCancelDownload, StreamSettles] =
     \<lparr>this = global_downloader, pending = 0\<rparr> \<and>
   pending (life global_downloader [CallCancelDownload, StreamSettles]) = 0 \<and>
   this (life global_downloader [CallCancelDownload, StreamSettles]) = global_downloader \<and>
   thrown (downloadMonth failing_env global_downloader ''202510'') = Some (Transfer NetworkFailure) \<and>
   after (downloadMonth failing_env global_downloader ''202510'') = global_downloader \<and>
   after (downloadMonth cancel_env global_downloader ''202510'') = global_downloader \<and>
   after (downloadMonth split_env global_downloader ''202510'') = global_downloader"
proof -
  let ?acts = "[CallDownloadMonth ''202510'', CallCancelDownload]"
  let ?d1 = "global_downloader\<lparr>isDownloading := True, abortController := Some False\<rparr>"
  let ?d2 = "global_downloader\<lparr>isDownloading := True, abortController := Some True\<rparr>"
  have c: "constructed global_downloader"
    by (simp add: constructed_def global_downloader_def)
  have enter: "downloadMonth_enter global_downloader ''202510'' = Inr (?d1, Entry month_202510)"
    by (simp add: downloadMonth_enter_def month_property_def global_downloader_def)
  have l2: "life global_downloader ?acts = \<lparr>this = ?d2, pending = 1\<rparr>"
    by (simp add: life_def enter cancelDownload_def)
  have p2: "pending (life global_downloader ?acts) = 1"
    by (simp add: l2)
  have err: "thrown (downloadMonth failing_env global_downloader ''202510'') =
      Some (Transfer NetworkFailure)"
    by (simp add: js_eval failing_env_def global_downloader_def month_202510_def chunk_a'_def)
  note inst = one_download_per_instance[OF c, of ?acts _ "''202510''" ?d1 "Entry month_202510"]
  note second = inst[of split_env, THEN conjunct2, THEN conjunct2, THEN conjunct2, THEN conjunct1,
      THEN mp, OF p2]
  note first = inst[of split_env, THEN conjunct2, THEN conjunct2, THEN conjunct2, THEN conjunct2,
      THEN conjunct2, THEN conjunct1, THEN mp, OF enter]
  note awaited = inst[THEN conjunct2, THEN conjunct2, THEN conjunct2, THEN conjunct2,
      THEN conjunct2, THEN conjunct2]
  have a: "life global_downloader [CallDownloadMonth ''202510''] = \<lparr>this = ?d1, pending = 1\<rparr>"
    using first by simp
  have b: "thrown (downloadMonth split_env ?d2 ''202510'') = Some DownloadInProgress \<and>
      requests (streamed (downloadMonth split_env ?d2 ''202510'')) = []"
    using second by (simp add: l2)
  have r: "life global_downloader (?acts @ [CallDownloadMonth ''202510'']) =
      life global_downloader ?acts"
    using second by simp
  have s: "life global_downloader (?acts @ [StreamSettles]) = \<lparr>this = global_downloader, pending = 0\<rparr>"
    using second by simp
  have p0: "pending (life global_downloader [CallCancelDownload, StreamSettles]) = 0"
    by (simp add: life_def)
  note idle = one_download_per_instance[OF c, of "[CallCancelDownload, StreamSettles]",
      THEN conjunct2, THEN conjunct2, THEN conjunct2, THEN conjunct2, THEN conjunct1,
      THEN mp, OF p0]
  show ?thesis
    using c a l2 b r s p0 idle err awaited[of failing_env] awaited[of cancel_env]
      awaited[of split_env]
    by simp
qed

end
